theory Spec2Isabelle
  imports Complex_Main "HOL-Library.Word"
begin

section \<open>JavaScript strings and numbers\<close>

text \<open>
  A JavaScript string is a sequence of 16-bit code units. \<open>js\<close> turns a literal of
  Latin-1 characters into its code units.
\<close>

type_synonym code_unit = "16 word"
type_synonym jsstring = "code_unit list"

definition js :: "string \<Rightarrow> jsstring" where
  "js s = map of_char s"

text \<open>
  \<open>WhiteSpace\<close> and \<open>LineTerminator\<close> of ECMAScript: the characters removed by
  \<open>String.prototype.trim\<close>, skipped by \<open>parseInt\<close> and matched by \<open>\s\<close>.
\<close>

definition is_white_space :: "code_unit \<Rightarrow> bool" where
  "is_white_space c \<longleftrightarrow>
     c = 0x09 \<or> c = 0x0A \<or> c = 0x0B \<or> c = 0x0C \<or> c = 0x0D \<or> c = 0x20 \<or> c = 0xA0
     \<or> c = 0x1680 \<or> (0x2000 \<le> c \<and> c \<le> 0x200A) \<or> c = 0x2028 \<or> c = 0x2029
     \<or> c = 0x202F \<or> c = 0x205F \<or> c = 0x3000 \<or> c = 0xFEFF"

definition is_line_terminator :: "code_unit \<Rightarrow> bool" where
  "is_line_terminator c \<longleftrightarrow> c = 0x0A \<or> c = 0x0D \<or> c = 0x2028 \<or> c = 0x2029"

definition is_digit :: "code_unit \<Rightarrow> bool" where
  "is_digit c \<longleftrightarrow> 0x30 \<le> c \<and> c \<le> 0x39"

text \<open>The word characters of \<open>\w\<close> and \<open>\b\<close>: \<open>[A-Za-z0-9_]\<close>.\<close>

definition is_word_char :: "code_unit \<Rightarrow> bool" where
  "is_word_char c \<longleftrightarrow>
     (0x41 \<le> c \<and> c \<le> 0x5A) \<or> (0x61 \<le> c \<and> c \<le> 0x7A) \<or> is_digit c \<or> c = 0x5F"

definition trim :: "jsstring \<Rightarrow> jsstring" where
  "trim s = rev (dropWhile is_white_space (rev (dropWhile is_white_space s)))"

text \<open>
  Case conversion. On ASCII, \<open>toUpperCase\<close> maps \<open>a\<close>..\<open>z\<close> to \<open>A\<close>..\<open>Z\<close> and
  leaves every other code unit alone. Above ASCII the result comes from the Unicode
  tables of the JavaScript runtime, which may give several code units; those tables
  are the parameter \<open>uc\<close>.
\<close>

definition ascii_upper :: "code_unit \<Rightarrow> code_unit" where
  "ascii_upper c = (if 0x61 \<le> c \<and> c \<le> 0x7A then c - 0x20 else c)"

definition toUpperCase :: "(code_unit \<Rightarrow> jsstring) \<Rightarrow> code_unit \<Rightarrow> jsstring" where
  "toUpperCase uc c = (if c < 0x80 then [ascii_upper c] else uc c)"

text \<open>
  \<open>Canonicalize\<close> of a regular expression with the \<open>i\<close> flag and without the
  \<open>u\<close> flag: the upper-case form of the code unit, except that a code unit above
  ASCII is never mapped into ASCII. The patterns of this program compare only with
  ASCII characters, so a code unit above ASCII stands for itself here.
\<close>

definition canonicalize :: "bool \<Rightarrow> code_unit \<Rightarrow> code_unit" where
  "canonicalize ignore_case c = (if ignore_case \<and> c < 0x80 then ascii_upper c else c)"

text \<open>
  A Number is \<open>NaN\<close> or a value. The only arithmetic of the program is on integers
  between 0 and 999 and one division by 100, whose double result is the double that the
  decimal literal of the exact quotient denotes; the model keeps the exact quotient.
\<close>

datatype jsnum = NaN | Num real

fun math_max :: "jsnum \<Rightarrow> jsnum \<Rightarrow> jsnum" where
  "math_max (Num a) (Num b) = Num (max a b)"
| "math_max _ _ = NaN"

fun math_min :: "jsnum \<Rightarrow> jsnum \<Rightarrow> jsnum" where
  "math_min (Num a) (Num b) = Num (min a b)"
| "math_min _ _ = NaN"

fun div_by :: "jsnum \<Rightarrow> real \<Rightarrow> jsnum" where
  "div_by (Num a) d = Num (a / d)"
| "div_by NaN d = NaN"

text \<open>
  \<open>parseInt(s, 10)\<close>: skip leading white space, read an optional sign, then the longest
  run of decimal digits; \<open>NaN\<close> when that run is empty.
\<close>

definition digit_value :: "code_unit \<Rightarrow> int" where
  "digit_value c = uint c - 0x30"

definition digits_value :: "jsstring \<Rightarrow> int" where
  "digits_value ds = foldl (\<lambda>a c. 10 * a + digit_value c) 0 ds"

definition parseInt :: "jsstring \<Rightarrow> jsnum" where
  "parseInt s =
     (let t = dropWhile is_white_space s;
          neg = (case t of [] \<Rightarrow> False | c # _ \<Rightarrow> c = 0x2D);
          u = (case t of [] \<Rightarrow> [] | c # r \<Rightarrow> if c = 0x2D \<or> c = 0x2B then r else t);
          ds = takeWhile is_digit u
      in if ds = [] then NaN
         else Num (of_int (if neg then - digits_value ds else digits_value ds)))"

section \<open>Regular expressions\<close>

text \<open>
  The fragment of ECMAScript patterns that the program uses: single characters and
  character classes, sequence, alternative, capturing group, a quantifier on a
  one-character atom (greedy or lazy, with a minimum and an optional maximum), \<open>^\<close>
  and \<open>\b\<close>.
\<close>

datatype class_item = Chr code_unit | WhiteSpaceEscape | DigitEscape

datatype char_set =
    One class_item
  | Dot
  | Class "class_item list"
  | NegClass "class_item list"

datatype regex =
    Empty
  | Char char_set
  | Seq regex regex
  | Alt regex regex
  | Group nat regex
  | Repeat char_set nat "nat option" bool
  | Bol
  | WordBoundary

fun item_matches :: "bool \<Rightarrow> class_item \<Rightarrow> code_unit \<Rightarrow> bool" where
  "item_matches ic (Chr a) c = (canonicalize ic c = canonicalize ic a)"
| "item_matches ic WhiteSpaceEscape c = is_white_space c"
| "item_matches ic DigitEscape c = is_digit c"

fun in_char_set :: "bool \<Rightarrow> char_set \<Rightarrow> code_unit \<Rightarrow> bool" where
  "in_char_set ic (One i) c = item_matches ic i c"
| "in_char_set ic Dot c = (\<not> is_line_terminator c)"
| "in_char_set ic (Class is) c = list_ex (\<lambda>i. item_matches ic i c) is"
| "in_char_set ic (NegClass is) c = (\<not> list_ex (\<lambda>i. item_matches ic i c) is)"

text \<open>
  The state of a match: the input before the current position (latest first), the input
  from the current position, and the captures so far.
\<close>

type_synonym captures = "nat \<Rightarrow> jsstring option"

datatype mstate = MState (seen: jsstring) (rest: jsstring) (caps: captures)

definition advance :: "mstate \<Rightarrow> mstate" where
  "advance s = (case rest s of [] \<Rightarrow> s | c # cs \<Rightarrow> MState (c # seen s) cs (caps s))"

definition set_capture :: "nat \<Rightarrow> mstate \<Rightarrow> mstate \<Rightarrow> mstate" where
  "set_capture n s s' =
     MState (seen s') (rest s')
       ((caps s')(n \<mapsto> take (length (rest s) - length (rest s')) (rest s)))"

definition at_word_boundary :: "mstate \<Rightarrow> bool" where
  "at_word_boundary s \<longleftrightarrow>
     (case seen s of [] \<Rightarrow> False | c # _ \<Rightarrow> is_word_char c)
       \<noteq> (case rest s of [] \<Rightarrow> False | c # _ \<Rightarrow> is_word_char c)"

text \<open>
  \<open>RepeatMatcher\<close> of ECMAScript for an atom that consumes exactly one character: no
  more repetition when the maximum is 0; a repetition first while the minimum is not
  reached; otherwise the continuation first when lazy, a repetition first when greedy.
\<close>

function repeat ::
  "bool \<Rightarrow> char_set \<Rightarrow> nat \<Rightarrow> nat option \<Rightarrow> bool \<Rightarrow> mstate \<Rightarrow> (mstate \<Rightarrow> 'r option) \<Rightarrow> 'r option"
where
  "repeat ic cs mn mx greedy s k =
     (if mx = Some 0 then k s
      else if mn \<noteq> 0 then
        (case rest s of [] \<Rightarrow> None
         | c # _ \<Rightarrow>
             if in_char_set ic cs c
             then repeat ic cs (mn - 1) (map_option (\<lambda>m. m - 1) mx) greedy (advance s) k
             else None)
      else if \<not> greedy then
        (case k s of Some r \<Rightarrow> Some r
         | None \<Rightarrow>
             (case rest s of [] \<Rightarrow> None
              | c # _ \<Rightarrow>
                  if in_char_set ic cs c
                  then repeat ic cs 0 (map_option (\<lambda>m. m - 1) mx) greedy (advance s) k
                  else None))
      else
        (case (case rest s of [] \<Rightarrow> None
               | c # _ \<Rightarrow>
                   if in_char_set ic cs c
                   then repeat ic cs 0 (map_option (\<lambda>m. m - 1) mx) greedy (advance s) k
                   else None) of
           Some r \<Rightarrow> Some r
         | None \<Rightarrow> k s))"
  by pat_completeness auto
termination
  by (relation "measure (\<lambda>(ic, cs, mn, mx, greedy, s, k). length (rest s))")
     (auto simp: advance_def)

declare repeat.simps [simp del]

text \<open>
  The backtracking matcher, in continuation-passing style as in the ECMAScript
  specification: \<open>matcher ic r s k\<close> matches \<open>r\<close> at state \<open>s\<close> and hands each
  candidate end state to \<open>k\<close>, in priority order, until \<open>k\<close> succeeds.
\<close>

primrec matcher ::
  "bool \<Rightarrow> regex \<Rightarrow> mstate \<Rightarrow> (mstate \<Rightarrow> 'r option) \<Rightarrow> 'r option"
where
  "matcher ic Empty = (\<lambda>s k. k s)"
| "matcher ic (Char cs) = (\<lambda>s k.
     case rest s of [] \<Rightarrow> None
     | c # _ \<Rightarrow> if in_char_set ic cs c then k (advance s) else None)"
| "matcher ic (Seq a b) = (\<lambda>s k. matcher ic a s (\<lambda>s'. matcher ic b s' k))"
| "matcher ic (Alt a b) = (\<lambda>s k.
     case matcher ic a s k of Some r \<Rightarrow> Some r | None \<Rightarrow> matcher ic b s k)"
| "matcher ic (Group n r) = (\<lambda>s k. matcher ic r s (\<lambda>s'. k (set_capture n s s')))"
| "matcher ic (Repeat cs mn mx greedy) = (\<lambda>s k. repeat ic cs mn mx greedy s k)"
| "matcher ic Bol = (\<lambda>s k. if seen s = [] then k s else None)"
| "matcher ic WordBoundary = (\<lambda>s k. if at_word_boundary s then k s else None)"

text \<open>
  \<open>RegExp.prototype.exec\<close> on a pattern without the \<open>g\<close> and \<open>y\<close> flags tries
  every start index from 0 and returns the first match. \<open>string_match\<close> is
  \<open>String.prototype.match\<close>: the captures of that match (the program reads groups
  1 to 3 only), or \<open>None\<close> for \<open>null\<close>; \<open>regex_test\<close> is \<open>RegExp.prototype.test\<close>.
\<close>

fun search :: "bool \<Rightarrow> regex \<Rightarrow> jsstring \<Rightarrow> jsstring \<Rightarrow> mstate option" where
  "search ic r pre [] = matcher ic r (MState pre [] Map.empty) Some"
| "search ic r pre (c # cs) =
     (case matcher ic r (MState pre (c # cs) Map.empty) Some of
        Some e \<Rightarrow> Some e
      | None \<Rightarrow> search ic r (c # pre) cs)"

definition string_match :: "bool \<Rightarrow> regex \<Rightarrow> jsstring \<Rightarrow> captures option" where
  "string_match ic r s = map_option caps (search ic r [] s)"

definition regex_test :: "bool \<Rightarrow> regex \<Rightarrow> jsstring \<Rightarrow> bool" where
  "regex_test ic r s = (search ic r [] s \<noteq> None)"

fun literal :: "jsstring \<Rightarrow> regex" where
  "literal [] = Empty"
| "literal [c] = Char (One (Chr c))"
| "literal (c # cs) = Seq (Char (One (Chr c))) (literal cs)"

section \<open>The response parser of analyzeTransactionDeductibility\<close>

text \<open>The four patterns of \<^verbatim>\<open>src/lib/openai/analysis.ts\<close>, lines 46 to 58.\<close>

text \<open>\<^verbatim>\<open>/^yes\b/i\<close>\<close>

definition yes_pattern :: regex where
  "yes_pattern = Seq Bol (Seq (literal (js ''yes'')) WordBoundary)"

text \<open>\<^verbatim>\<open>/^(yes|no)[,\s]+(.+?)[,\s]+(\d{1,3})%/i\<close>\<close>

definition strict_pattern :: regex where
  "strict_pattern =
     Seq Bol
    (Seq (Group 1 (Alt (literal (js ''yes'')) (literal (js ''no''))))
    (Seq (Repeat (Class [Chr 0x2C, WhiteSpaceEscape]) 1 None True)
    (Seq (Group 2 (Repeat Dot 1 None False))
    (Seq (Repeat (Class [Chr 0x2C, WhiteSpaceEscape]) 1 None True)
    (Seq (Group 3 (Repeat (One DigitEscape) 1 (Some 3) True))
         (Char (One (Chr 0x25))))))))"

text \<open>\<^verbatim>\<open>/(\d{1,3})\s*%/\<close>\<close>

definition score_pattern :: regex where
  "score_pattern =
     Seq (Group 1 (Repeat (One DigitEscape) 1 (Some 3) True))
    (Seq (Repeat (One WhiteSpaceEscape) 0 None True)
         (Char (One (Chr 0x25))))"

text \<open>\<^verbatim>\<open>/^[^,]+,\s*(.+?),\s*\d{1,3}%/\<close>\<close>

definition reason_pattern :: regex where
  "reason_pattern =
     Seq Bol
    (Seq (Repeat (NegClass [Chr 0x2C]) 1 None True)
    (Seq (Char (One (Chr 0x2C)))
    (Seq (Repeat (One WhiteSpaceEscape) 0 None True)
    (Seq (Group 1 (Repeat Dot 1 None False))
    (Seq (Char (One (Chr 0x2C)))
    (Seq (Repeat (One WhiteSpaceEscape) 0 None True)
    (Seq (Repeat (One DigitEscape) 1 (Some 3) True)
         (Char (One (Chr 0x25))))))))))"

text \<open>
  A value thrown and caught: an \<open>Error\<close> object with its message, or some other
  value. Reading a property of \<open>undefined\<close> throws a \<open>TypeError\<close>.
\<close>

datatype thrown = ErrorObject (message: jsstring) | OtherThrown

definition TypeError :: thrown where
  "TypeError = ErrorObject (js ''TypeError'')"

text \<open>
  The objects that the operations return: \<^verbatim>\<open>{success: true, ...}\<close> with a payload,
  or \<^verbatim>\<open>{success: false, error}\<close>, where \<open>error\<close> is a message or a caught value.
\<close>

datatype error_value = Message jsstring | Caught thrown

datatype 'a result = success: Success 'a | Failure (error: error_value)

text \<open>
  The payload of analyzeTransactionDeductibility:
  \<^verbatim>\<open>is_deductible, deductible_reason, deduction_score\<close>. A score of \<open>None\<close> is
  \<open>null\<close>.
\<close>

record verdict =
  is_deductible :: bool
  deductible_reason :: jsstring
  deduction_score :: "jsnum option"

text \<open>
  \<^verbatim>\<open>Math.min(100, Math.max(0, parseInt(g, 10))) / 100\<close>, where \<open>g\<close> is a capture
  (\<open>undefined\<close> when the group did not take part: its string form has no digit).
\<close>

definition score_of_capture :: "jsstring option \<Rightarrow> jsnum" where
  "score_of_capture g =
     div_by (math_min (Num 100)
       (math_max (Num 0) (case g of None \<Rightarrow> NaN | Some ds \<Rightarrow> parseInt ds))) 100"

text \<open>\<^verbatim>\<open>reason.charAt(0).toUpperCase() + reason.slice(1)\<close> when \<open>reason.length > 0\<close>.\<close>

definition capitalize :: "(code_unit \<Rightarrow> jsstring) \<Rightarrow> jsstring \<Rightarrow> jsstring" where
  "capitalize uc reason =
     (case reason of [] \<Rightarrow> [] | c # cs \<Rightarrow> toUpperCase uc c @ cs)"

text \<open>
  Lines 46 to 75: the parse of the reply \<open>content\<close>, inside the \<open>try\<close> block. Calling
  \<open>trim\<close> on a capture that is \<open>undefined\<close> would throw, and the \<open>catch\<close> would
  return the failure object.
\<close>

definition parse_response :: "(code_unit \<Rightarrow> jsstring) \<Rightarrow> jsstring \<Rightarrow> verdict result" where
  "parse_response uc content =
     (let isYes = regex_test True yes_pattern (trim content) in
      case string_match True strict_pattern content of
        Some m \<Rightarrow>
          (case m 2 of
             None \<Rightarrow> Failure (Caught TypeError)
           | Some g \<Rightarrow>
               Success \<lparr>is_deductible = isYes,
                        deductible_reason = capitalize uc (trim g),
                        deduction_score = Some (score_of_capture (m 3))\<rparr>)
      | None \<Rightarrow>
          (let score =
                 (case string_match False score_pattern content of
                    Some scoreMatch \<Rightarrow> Some (score_of_capture (scoreMatch 1))
                  | None \<Rightarrow> None)
           in case string_match False reason_pattern content of
                Some reasonMatch \<Rightarrow>
                  (case reasonMatch 1 of
                     None \<Rightarrow> Failure (Caught TypeError)
                   | Some g \<Rightarrow>
                       Success \<lparr>is_deductible = isYes,
                                deductible_reason = capitalize uc (trim g),
                                deduction_score = score\<rparr>)
              | None \<Rightarrow>
                  Success \<lparr>is_deductible = isYes,
                           deductible_reason = capitalize uc (js ''No reason provided''),
                           deduction_score = score\<rparr>))"

section \<open>What a pattern matches\<close>

text \<open>
  The matches of a pattern, stated without the search order: \<open>matches ic r s s'\<close>
  holds when \<open>r\<close> can take the matcher from state \<open>s\<close> to state \<open>s'\<close>. It is
  the specification that the backtracking matcher is proved sound and complete for.
  \<open>skip n\<close> moves over \<open>n\<close> characters. A quantifier is well formed when its minimum
  does not exceed its maximum (a pattern that is not is a syntax error).
\<close>

definition skip :: "nat \<Rightarrow> mstate \<Rightarrow> mstate" where
  "skip n s = MState (rev (take n (rest s)) @ seen s) (drop n (rest s)) (caps s)"

primrec well_formed :: "regex \<Rightarrow> bool" where
  "well_formed Empty = True"
| "well_formed (Char cs) = True"
| "well_formed (Seq a b) = (well_formed a \<and> well_formed b)"
| "well_formed (Alt a b) = (well_formed a \<and> well_formed b)"
| "well_formed (Group n r) = well_formed r"
| "well_formed (Repeat cs mn mx greedy) = (case mx of None \<Rightarrow> True | Some m \<Rightarrow> mn \<le> m)"
| "well_formed Bol = True"
| "well_formed WordBoundary = True"

primrec matches :: "bool \<Rightarrow> regex \<Rightarrow> mstate \<Rightarrow> mstate \<Rightarrow> bool" where
  "matches ic Empty s s' = (s' = s)"
| "matches ic (Char cs) s s' =
     (rest s \<noteq> [] \<and> in_char_set ic cs (hd (rest s)) \<and> s' = skip 1 s)"
| "matches ic (Seq a b) s s' = (\<exists>m. matches ic a s m \<and> matches ic b m s')"
| "matches ic (Alt a b) s s' = (matches ic a s s' \<or> matches ic b s s')"
| "matches ic (Group n r) s s' = (\<exists>m. matches ic r s m \<and> s' = set_capture n s m)"
| "matches ic (Repeat cs mn mx greedy) s s' =
     (\<exists>n. mn \<le> n \<and> (case mx of None \<Rightarrow> True | Some m \<Rightarrow> n \<le> m) \<and> n \<le> length (rest s)
          \<and> list_all (in_char_set ic cs) (take n (rest s)) \<and> s' = skip n s)"
| "matches ic Bol s s' = (seen s = [] \<and> s' = s)"
| "matches ic WordBoundary s s' = (at_word_boundary s \<and> s' = s)"

text \<open>
  The text holds a percentage: somewhere a decimal digit is followed by optional white
  space and a percent sign.
\<close>

fun has_percentage :: "jsstring \<Rightarrow> bool" where
  "has_percentage [] = False"
| "has_percentage (c # cs) =
     ((is_digit c \<and> (case dropWhile is_white_space cs of [] \<Rightarrow> False | p # _ \<Rightarrow> p = 0x25))
      \<or> has_percentage cs)"

text \<open>
  The string starts with the token "yes" in either case: the letters \<open>y\<close>, \<open>e\<close>,
  \<open>s\<close>, and then the end of the string or a character that cannot continue a word.
\<close>

definition starts_with_yes_token :: "jsstring \<Rightarrow> bool" where
  "starts_with_yes_token s =
     (case s of
        y # e # s' # r \<Rightarrow>
          (y = 0x59 \<or> y = 0x79) \<and> (e = 0x45 \<or> e = 0x65) \<and> (s' = 0x53 \<or> s' = 0x73)
            \<and> (case r of [] \<Rightarrow> True | c # _ \<Rightarrow> \<not> is_word_char c)
      | _ \<Rightarrow> False)"

text \<open>A case table that leaves every code unit above ASCII as it is, for concrete runs.\<close>

definition ascii_case_table :: "code_unit \<Rightarrow> jsstring" where
  "ascii_case_table c = [c]"

section \<open>External services and effects\<close>

text \<open>
  The bank API, the language model and the storage service are outside the program.
  A call to one of them either returns a value or throws.
\<close>

datatype 'a outcome = Returns 'a | Throws thrown

text \<open>The rows and responses, with the fields that the program reads.\<close>

record user =
  plaid_token :: "jsstring option"

record 'a query_result =
  data :: "'a option"
  query_error :: "thrown option"

record plaid_account =
  account_id :: jsstring

record account_row =
  row_account_id :: jsstring
  row_user_id :: jsstring

record plaid_transaction =
  transaction_id :: jsstring
  date :: jsstring
  amount :: real
  merchant_name :: "jsstring option"
  category :: "jsstring list option"

record transactions_response =
  transactions :: "plaid_transaction list"
  request_id :: "jsstring option"

record institution =
  institution_name :: jsstring

text \<open>
  The argument of addTransaction (\<^verbatim>\<open>src/lib/database/users.ts\<close>, lines 176 to 186), which
  is also a row of the transactions table, and the argument of updateTransaction
  (lines 201 to 208). An optional field that is absent is \<open>None\<close>; so is a score of
  \<open>null\<close>.
\<close>

record transaction_data =
  trans_id :: jsstring
  t_account_id :: jsstring
  t_date :: jsstring
  t_amount :: real
  t_merchant_name :: "jsstring option"
  t_category :: "jsstring option"
  t_is_deductible :: "bool option"
  t_deductible_reason :: "jsstring option"
  t_deduction_score :: "jsnum option"

record transaction_update =
  u_amount :: "real option"
  u_merchant_name :: "jsstring option"
  u_category :: "jsstring option"
  u_is_deductible :: "bool option"
  u_deductible_reason :: "jsstring option"
  u_deduction_score :: "jsnum option"

text \<open>The calls that leave the program, in the order they are made.\<close>

datatype event =
    ServerUsersSelect jsstring
  | UsersSelect jsstring
  | AccountsGet jsstring
  | GetAccounts jsstring
  | AddAccount jsstring jsstring
  | TransactionsGet jsstring jsstring
  | AnalyzeTransaction jsstring real jsstring jsstring
  | TransactionsInsert transaction_data
  | UpdateAccount jsstring jsstring
  | ItemGet jsstring
  | InstitutionsGetById jsstring
  | ChatCompletionsCreate "jsstring option" real "jsstring option" jsstring
  | TransactionsSelect jsstring
  | TransactionsUpdate jsstring transaction_update

text \<open>
  The services. What a call answers may depend on its arguments and on every call made
  before it, so each service is a function of the calls so far: this covers a store whose
  content changes and a service that fails at one moment and not at another.
  \<open>analyze\<close> is analyzeTransactionDeductibility as fetchTransactions imports it.
\<close>

record services =
  server_users_select :: "event list \<Rightarrow> jsstring \<Rightarrow> user query_result outcome"
  users_select :: "event list \<Rightarrow> jsstring \<Rightarrow> user query_result outcome"
  accountsGet :: "event list \<Rightarrow> jsstring \<Rightarrow> plaid_account list outcome"
  getAccounts :: "event list \<Rightarrow> jsstring \<Rightarrow> account_row list query_result outcome"
  addAccount :: "event list \<Rightarrow> jsstring \<Rightarrow> jsstring \<Rightarrow> unit query_result outcome"
  transactionsGet :: "event list \<Rightarrow> jsstring \<Rightarrow> jsstring \<Rightarrow> transactions_response outcome"
  analyze :: "event list \<Rightarrow> jsstring \<Rightarrow> real \<Rightarrow> jsstring \<Rightarrow> jsstring \<Rightarrow> verdict result outcome"
  transactions_insert :: "event list \<Rightarrow> transaction_data \<Rightarrow> unit query_result outcome"
  updateAccount :: "event list \<Rightarrow> jsstring \<Rightarrow> jsstring \<Rightarrow> unit query_result outcome"
  itemGet :: "event list \<Rightarrow> jsstring \<Rightarrow> jsstring option outcome"
  institutionsGetById :: "event list \<Rightarrow> jsstring \<Rightarrow> institution outcome"
  chat_completions_create ::
    "event list \<Rightarrow> jsstring option \<Rightarrow> real \<Rightarrow> jsstring option \<Rightarrow> jsstring \<Rightarrow> jsstring option list outcome"
  transactions_select :: "event list \<Rightarrow> jsstring \<Rightarrow> transaction_data list query_result outcome"
  transactions_update ::
    "event list \<Rightarrow> jsstring \<Rightarrow> transaction_update \<Rightarrow> unit query_result outcome"

text \<open>
  An asynchronous computation takes the calls made so far and gives its outcome and the
  calls made up to its end. \<open>and_then\<close> is \<open>await\<close> followed by the rest of the
  function: a throw ends it. \<open>try_catch\<close> is \<open>try { ... } catch (e) { ... }\<close>.
\<close>

type_synonym 'a io = "event list \<Rightarrow> 'a outcome \<times> event list"

definition return :: "'a \<Rightarrow> 'a io" where
  "return x tr = (Returns x, tr)"

definition throw :: "thrown \<Rightarrow> 'a io" where
  "throw e tr = (Throws e, tr)"

definition and_then :: "'a io \<Rightarrow> ('a \<Rightarrow> 'b io) \<Rightarrow> 'b io" where
  "and_then m f tr =
     (case m tr of (Returns x, tr') \<Rightarrow> f x tr' | (Throws e, tr') \<Rightarrow> (Throws e, tr'))"

definition try_catch :: "'a io \<Rightarrow> (thrown \<Rightarrow> 'a io) \<Rightarrow> 'a io" where
  "try_catch m h tr =
     (case m tr of (Returns x, tr') \<Rightarrow> (Returns x, tr') | (Throws e, tr') \<Rightarrow> h e tr')"

definition perform :: "(event list \<Rightarrow> 'a outcome) \<Rightarrow> event \<Rightarrow> 'a io" where
  "perform service ev tr = (service tr, tr @ [ev])"

section \<open>Storage operations\<close>

text \<open>
  getUser (\<^verbatim>\<open>src/lib/database/users.ts\<close>, lines 31 to 70): the server client first;
  its result is returned when it has data or no error; when it has neither, or when the
  server client throws, the regular client is asked.
\<close>

definition getUser :: "services \<Rightarrow> jsstring \<Rightarrow> user query_result io" where
  "getUser sv userId =
     and_then
       (try_catch
          (and_then
             (perform (\<lambda>tr. server_users_select sv tr userId) (ServerUsersSelect userId))
             (\<lambda>serverResult.
                return (if data serverResult \<noteq> None \<or> query_error serverResult = None
                        then Some serverResult else None)))
          (\<lambda>serverError. return None))
       (\<lambda>early. case early of
          Some serverResult \<Rightarrow> return serverResult
        | None \<Rightarrow> perform (\<lambda>tr. users_select sv tr userId) (UsersSelect userId))"

text \<open>addTransaction, updateTransaction and getTransactions (lines 157 to 213).\<close>

definition addTransaction :: "services \<Rightarrow> transaction_data \<Rightarrow> unit query_result io" where
  "addTransaction sv transactionData =
     perform (\<lambda>tr. transactions_insert sv tr transactionData)
       (TransactionsInsert transactionData)"

definition updateTransaction ::
  "services \<Rightarrow> jsstring \<Rightarrow> transaction_update \<Rightarrow> unit query_result io" where
  "updateTransaction sv transactionId updates =
     perform (\<lambda>tr. transactions_update sv tr transactionId updates)
       (TransactionsUpdate transactionId updates)"

definition getTransactions :: "services \<Rightarrow> jsstring \<Rightarrow> transaction_data list query_result io" where
  "getTransactions sv userId =
     perform (\<lambda>tr. transactions_select sv tr userId) (TransactionsSelect userId)"

text \<open>
  What the storage service does with an update: it writes the columns that the request
  names and leaves the others. A property whose value is \<open>undefined\<close> is not part of
  the request.
\<close>

definition apply_update :: "transaction_update \<Rightarrow> transaction_data \<Rightarrow> transaction_data" where
  "apply_update u row =
     row\<lparr>t_amount := (case u_amount u of None \<Rightarrow> t_amount row | Some a \<Rightarrow> a),
         t_merchant_name :=
           (case u_merchant_name u of None \<Rightarrow> t_merchant_name row | Some m \<Rightarrow> Some m),
         t_category := (case u_category u of None \<Rightarrow> t_category row | Some c \<Rightarrow> Some c),
         t_is_deductible :=
           (case u_is_deductible u of None \<Rightarrow> t_is_deductible row | Some b \<Rightarrow> Some b),
         t_deductible_reason :=
           (case u_deductible_reason u of None \<Rightarrow> t_deductible_reason row | Some r \<Rightarrow> Some r),
         t_deduction_score :=
           (case u_deduction_score u of None \<Rightarrow> t_deduction_score row | Some x \<Rightarrow> Some x)\<rparr>"

section \<open>analyzeTransactionDeductibility and the callback of analyzeAllTransactions\<close>

text \<open>
  \<^verbatim>\<open>src/lib/openai/analysis.ts\<close>, lines 5 to 76. The prompt is built from four fields of
  the transaction; \<open>response.choices[0].message.content || ''\<close> throws when there is no
  first choice and is the empty string when the content is \<open>null\<close>.
\<close>

definition analyzeTransactionDeductibility ::
  "(code_unit \<Rightarrow> jsstring) \<Rightarrow> services \<Rightarrow> jsstring option \<Rightarrow> real \<Rightarrow> jsstring option \<Rightarrow> jsstring
     \<Rightarrow> verdict result io" where
  "analyzeTransactionDeductibility uc sv merchant amt cat dt =
     try_catch
       (and_then
          (perform (\<lambda>tr. chat_completions_create sv tr merchant amt cat dt)
             (ChatCompletionsCreate merchant amt cat dt))
          (\<lambda>choices. case choices of
             [] \<Rightarrow> throw TypeError
           | choice # _ \<Rightarrow>
               return (parse_response uc (case choice of None \<Rightarrow> [] | Some content \<Rightarrow> content))))
       (\<lambda>error. return (Failure (Caught error)))"

text \<open>\<open>x || undefined\<close> for a score: \<open>null\<close>, \<open>NaN\<close> and 0 become \<open>undefined\<close>.\<close>

definition or_undefined :: "jsnum option \<Rightarrow> jsnum option" where
  "or_undefined x =
     (case x of
        None \<Rightarrow> None
      | Some NaN \<Rightarrow> None
      | Some (Num r) \<Rightarrow> if r = 0 then None else Some (Num r))"

text \<open>The object passed to updateTransaction at lines 88 to 92.\<close>

definition analysis_update :: "verdict \<Rightarrow> transaction_update" where
  "analysis_update v =
     \<lparr>u_amount = None, u_merchant_name = None, u_category = None,
      u_is_deductible = Some (is_deductible v),
      u_deductible_reason = Some (deductible_reason v),
      u_deduction_score = or_undefined (deduction_score v)\<rparr>"

text \<open>
  The callback that analyzeAllTransactions applies to each stored transaction (lines 85
  to 95): the analysis, and the update when it succeeded.
\<close>

definition analyze_and_update ::
  "(code_unit \<Rightarrow> jsstring) \<Rightarrow> services \<Rightarrow> transaction_data \<Rightarrow> verdict result io" where
  "analyze_and_update uc sv transaction =
     and_then
       (analyzeTransactionDeductibility uc sv (t_merchant_name transaction)
          (t_amount transaction) (t_category transaction) (t_date transaction))
       (\<lambda>analysis. case analysis of
          Success v \<Rightarrow>
            and_then (updateTransaction sv (trans_id transaction) (analysis_update v))
              (\<lambda>_. return analysis)
        | Failure e \<Rightarrow> return analysis)"

section \<open>fetchTransactions, getAccountBalances and getInstitutionInfo\<close>

text \<open>\<open>user?.plaid_token\<close> when it is truthy: a user with a token that is not empty.\<close>

definition plaid_token_of :: "user option \<Rightarrow> jsstring option" where
  "plaid_token_of u =
     (case u of
        None \<Rightarrow> None
      | Some user \<Rightarrow>
          (case plaid_token user of
             None \<Rightarrow> None
           | Some token \<Rightarrow> if token = [] then None else Some token))"

text \<open>\<open>v || d\<close> for a string that may be \<open>null\<close>, and \<open>Array.prototype.join\<close>.\<close>

definition or_default :: "jsstring option \<Rightarrow> jsstring \<Rightarrow> jsstring" where
  "or_default v d = (case v of None \<Rightarrow> d | Some s \<Rightarrow> if s = [] then d else s)"

fun join :: "jsstring \<Rightarrow> jsstring list \<Rightarrow> jsstring" where
  "join sep [] = []"
| "join sep [x] = x"
| "join sep (x # xs) = x @ sep @ join sep xs"

text \<open>Lines 33 to 43: every account of the bank that is not stored yet is stored.\<close>

fun store_accounts :: "services \<Rightarrow> jsstring \<Rightarrow> plaid_account list \<Rightarrow> unit io" where
  "store_accounts sv userId [] = return ()"
| "store_accounts sv userId (account # accounts) =
     and_then (perform (\<lambda>tr. getAccounts sv tr userId) (GetAccounts userId))
       (\<lambda>existingAccount.
          and_then
            (if (case data existingAccount of
                   None \<Rightarrow> False
                 | Some rows \<Rightarrow> list_ex (\<lambda>acc. row_account_id acc = account_id account) rows)
             then return ()
             else and_then
                    (perform (\<lambda>tr. addAccount sv tr (account_id account) userId)
                       (AddAccount (account_id account) userId))
                    (\<lambda>_. return ()))
            (\<lambda>_. store_accounts sv userId accounts))"

text \<open>
  Lines 62 to 69: the transaction as it will be stored, before the analysis, with the
  defaults for a missing merchant name and a missing or empty category list.
\<close>

definition merchant_name_or_default :: "plaid_transaction \<Rightarrow> jsstring" where
  "merchant_name_or_default txn = or_default (merchant_name txn) (js ''Unknown Merchant'')"

definition category_or_default :: "plaid_transaction \<Rightarrow> jsstring" where
  "category_or_default txn =
     or_default (map_option (join (js '', '')) (category txn)) (js ''Uncategorized'')"

definition new_transaction_data :: "plaid_account \<Rightarrow> plaid_transaction \<Rightarrow> transaction_data" where
  "new_transaction_data account txn =
     \<lparr>trans_id = transaction_id txn,
      t_account_id = account_id account,
      t_date = date txn,
      t_amount = \<bar>amount txn\<bar>,
      t_merchant_name = Some (merchant_name_or_default txn),
      t_category = Some (category_or_default txn),
      t_is_deductible = None,
      t_deductible_reason = None,
      t_deduction_score = None\<rparr>"

text \<open>
  Lines 74 to 110, for one transaction: the analysis inside its own \<open>try\<close>, with the
  defaults when it reports a failure and when it throws, then addTransaction.
\<close>

definition analysis_request :: "plaid_transaction \<Rightarrow> event" where
  "analysis_request txn =
     AnalyzeTransaction (merchant_name_or_default txn) \<bar>amount txn\<bar>
       (category_or_default txn) (date txn)"

definition analysis_call ::
  "services \<Rightarrow> plaid_transaction \<Rightarrow> event list \<Rightarrow> verdict result outcome" where
  "analysis_call sv txn tr =
     analyze sv tr (merchant_name_or_default txn) \<bar>amount txn\<bar>
       (category_or_default txn) (date txn)"

definition store_transaction :: "services \<Rightarrow> plaid_account \<Rightarrow> plaid_transaction \<Rightarrow> unit io" where
  "store_transaction sv account txn =
     (let transactionData = new_transaction_data account txn
      in and_then
           (try_catch
              (and_then (perform (analysis_call sv txn) (analysis_request txn))
                 (\<lambda>analysis. return
                    (case analysis of
                       Success v \<Rightarrow>
                         transactionData
                           \<lparr>t_is_deductible := Some (is_deductible v),
                            t_deductible_reason := Some (deductible_reason v),
                            t_deduction_score := deduction_score v\<rparr>
                     | Failure e \<Rightarrow>
                         transactionData
                           \<lparr>t_is_deductible := Some False,
                            t_deductible_reason :=
                              Some (js ''Analysis failed - requires manual review''),
                            t_deduction_score := Some (Num 0)\<rparr>)))
              (\<lambda>error. return
                 (transactionData
                    \<lparr>t_is_deductible := Some False,
                     t_deductible_reason :=
                       Some (js ''Analysis error - requires manual review''),
                     t_deduction_score := Some (Num 0)\<rparr>)))
           (\<lambda>stored. and_then (addTransaction sv stored) (\<lambda>_. return ())))"

fun store_transactions :: "services \<Rightarrow> plaid_account \<Rightarrow> plaid_transaction list \<Rightarrow> unit io" where
  "store_transactions sv account [] = return ()"
| "store_transactions sv account (txn # txns) =
     and_then (store_transaction sv account txn) (\<lambda>_. store_transactions sv account txns)"

text \<open>
  Lines 48 to 122: for each account the transactions are fetched and stored, their
  number is added to the running count, and the account's cursor is updated when the
  response has a request id.
\<close>

fun fetch_account_transactions ::
  "services \<Rightarrow> jsstring \<Rightarrow> plaid_account list \<Rightarrow> nat \<Rightarrow> nat io" where
  "fetch_account_transactions sv token [] totalTransactions = return totalTransactions"
| "fetch_account_transactions sv token (account # accounts) totalTransactions =
     and_then
       (perform (\<lambda>tr. transactionsGet sv tr token (account_id account))
          (TransactionsGet token (account_id account)))
       (\<lambda>transactionsResponse.
          and_then (store_transactions sv account (transactions transactionsResponse))
            (\<lambda>_. and_then
                   (case request_id transactionsResponse of
                      None \<Rightarrow> return ()
                    | Some rid \<Rightarrow>
                        if rid = [] then return ()
                        else and_then
                               (perform (\<lambda>tr. updateAccount sv tr (account_id account) rid)
                                  (UpdateAccount (account_id account) rid))
                               (\<lambda>_. return ()))
                   (\<lambda>_. fetch_account_transactions sv token accounts
                          (totalTransactions + length (transactions transactionsResponse)))))"

text \<open>fetchTransactions, \<^verbatim>\<open>src/unnamed/part_000\<close>, lines 8 to 130.\<close>

definition fetchTransactions :: "services \<Rightarrow> jsstring \<Rightarrow> nat result io" where
  "fetchTransactions sv userId =
     try_catch
       (and_then (getUser sv userId)
          (\<lambda>res. case plaid_token_of (data res) of
             None \<Rightarrow> return (Failure (Message (js ''No Plaid token found'')))
           | Some token \<Rightarrow>
               and_then (perform (\<lambda>tr. accountsGet sv tr token) (AccountsGet token))
                 (\<lambda>plaidAccounts.
                    and_then (store_accounts sv userId plaidAccounts)
                      (\<lambda>_. and_then (fetch_account_transactions sv token plaidAccounts 0)
                             (\<lambda>totalTransactions. return (Success totalTransactions))))))
       (\<lambda>error. return
          (Failure (Message
             (case error of ErrorObject m \<Rightarrow> m | OtherThrown \<Rightarrow> js ''Unknown error''))))"

text \<open>getAccountBalances, lines 132 to 148, and getInstitutionInfo, lines 150 to 175.\<close>

definition getAccountBalances :: "services \<Rightarrow> jsstring \<Rightarrow> plaid_account list result io" where
  "getAccountBalances sv userId =
     try_catch
       (and_then (getUser sv userId)
          (\<lambda>res. case plaid_token_of (data res) of
             None \<Rightarrow> return (Failure (Message (js ''No Plaid token found'')))
           | Some token \<Rightarrow>
               and_then (perform (\<lambda>tr. accountsGet sv tr token) (AccountsGet token))
                 (\<lambda>accounts. return (Success accounts))))
       (\<lambda>error. return (Failure (Caught error)))"

definition getInstitutionInfo :: "services \<Rightarrow> jsstring \<Rightarrow> institution result io" where
  "getInstitutionInfo sv userId =
     try_catch
       (and_then (getUser sv userId)
          (\<lambda>res. case plaid_token_of (data res) of
             None \<Rightarrow> return (Failure (Message (js ''No Plaid token found'')))
           | Some token \<Rightarrow>
               and_then (perform (\<lambda>tr. itemGet sv tr token) (ItemGet token))
                 (\<lambda>institution_id. case institution_id of
                    None \<Rightarrow> return (Failure (Message (js ''No institution ID found'')))
                  | Some iid \<Rightarrow>
                      if iid = [] then return (Failure (Message (js ''No institution ID found'')))
                      else and_then
                             (perform (\<lambda>tr. institutionsGetById sv tr iid)
                                (InstitutionsGetById iid))
                             (\<lambda>inst. return (Success inst)))))
       (\<lambda>error. return (Failure (Caught error)))"

text \<open>The calls that write to the store or reach the bank API.\<close>

fun is_insert :: "event \<Rightarrow> bool" where
  "is_insert (TransactionsInsert d) = True"
| "is_insert _ = False"

text \<open>The \<open>trans_id\<close> of every addTransaction call of a run, in order.\<close>

fun inserted_ids :: "event list \<Rightarrow> jsstring list" where
  "inserted_ids [] = []"
| "inserted_ids (TransactionsInsert d # evs) = trans_id d # inserted_ids evs"
| "inserted_ids (ev # evs) = inserted_ids evs"

fun is_user_read :: "event \<Rightarrow> bool" where
  "is_user_read (ServerUsersSelect u) = True"
| "is_user_read (UsersSelect u) = True"
| "is_user_read _ = False"

text \<open>
  Services for concrete runs: user \<open>u1\<close> has a token and two bank accounts with two
  and one transactions, the analysis throws for one merchant and reports a failure for
  the others, and the language model answers with a score of 0.
\<close>

definition demo_transactions :: "jsstring \<Rightarrow> plaid_transaction list" where
  "demo_transactions a =
     (if a = js ''a1''
      then [\<lparr>transaction_id = js ''t1'', date = js ''2024-01-05'', amount = -12,
             merchant_name = Some (js ''Cafe''), category = Some [js ''Food'', js ''Coffee'']\<rparr>,
            \<lparr>transaction_id = js ''t2'', date = js ''2024-01-06'', amount = 40,
             merchant_name = None, category = None\<rparr>]
      else [\<lparr>transaction_id = js ''t3'', date = js ''2024-01-07'', amount = 7,
             merchant_name = Some (js ''Books''), category = Some []\<rparr>])"

definition demo_services :: services where
  "demo_services =
     \<lparr>server_users_select = (\<lambda>tr uid. Returns
        \<lparr>data = Some \<lparr>plaid_token = (if uid = js ''u1'' then Some (js ''tok'') else None)\<rparr>,
         query_error = None\<rparr>),
      users_select = (\<lambda>tr uid. Returns
        \<lparr>data = Some \<lparr>plaid_token = (if uid = js ''u1'' then Some (js ''tok'') else None)\<rparr>,
         query_error = None\<rparr>),
      accountsGet = (\<lambda>tr token. Returns [\<lparr>account_id = js ''a1''\<rparr>, \<lparr>account_id = js ''a2''\<rparr>]),
      getAccounts = (\<lambda>tr uid. Returns \<lparr>data = Some [], query_error = None\<rparr>),
      addAccount = (\<lambda>tr a uid. Returns \<lparr>data = None, query_error = None\<rparr>),
      transactionsGet = (\<lambda>tr token a. Returns
        \<lparr>transactions = demo_transactions a, request_id = Some (js ''r1'')\<rparr>),
      analyze = (\<lambda>tr m a c d.
        if m = js ''Cafe'' then Throws OtherThrown else Returns (Failure (Caught OtherThrown))),
      transactions_insert = (\<lambda>tr d. Returns \<lparr>data = None, query_error = None\<rparr>),
      updateAccount = (\<lambda>tr a c. Returns \<lparr>data = None, query_error = None\<rparr>),
      itemGet = (\<lambda>tr token. Returns None),
      institutionsGetById = (\<lambda>tr i. Returns \<lparr>institution_name = i\<rparr>),
      chat_completions_create = (\<lambda>tr m a c d. Returns [Some (js ''No, Personal expense, 0%'')]),
      transactions_select = (\<lambda>tr uid. Returns \<lparr>data = Some [], query_error = None\<rparr>),
      transactions_update = (\<lambda>tr i u. Returns \<lparr>data = None, query_error = None\<rparr>)\<rparr>"

section \<open>The matcher is sound and complete\<close>

lemma skip_0 [simp]: "skip 0 s = s"
  by (cases s) (simp add: skip_def)

lemma advance_skip: "rest s \<noteq> [] \<Longrightarrow> advance s = skip 1 s"
  by (cases s) (auto simp: advance_def skip_def split: list.splits)

lemma skip_Suc: "rest s = c # cs \<Longrightarrow> skip (Suc n) s = skip n (advance s)"
  by (cases s) (simp add: skip_def advance_def)

lemma rest_advance: "rest s = c # cs \<Longrightarrow> rest (advance s) = cs"
  by (simp add: advance_def)

text \<open>
  The quantifier loop hands to its continuation only states reached by a permitted
  number of characters of the set, and it finds a match whenever such a state exists
  that the continuation accepts.
\<close>

lemma repeat_sound:
  "repeat ic cs mn mx g s k = Some x \<Longrightarrow> (case mx of None \<Rightarrow> True | Some m \<Rightarrow> mn \<le> m) \<Longrightarrow>
   \<exists>n. mn \<le> n \<and> (case mx of None \<Rightarrow> True | Some m \<Rightarrow> n \<le> m) \<and> n \<le> length (rest s)
      \<and> list_all (in_char_set ic cs) (take n (rest s)) \<and> k (skip n s) = Some x"
proof (induction ic cs mn mx g s k rule: repeat.induct)
  case (1 ic cs mn mx greedy s k)
  let ?P = "\<lambda>mn mx s. \<exists>n. mn \<le> n \<and> (case mx of None \<Rightarrow> True | Some m \<Rightarrow> n \<le> m) \<and> n \<le> length (rest s)
      \<and> list_all (in_char_set ic cs) (take n (rest s)) \<and> k (skip n s) = Some x"
  have zero: "k s = Some x \<Longrightarrow> mn = 0 \<Longrightarrow> ?P mn mx s"
    by (rule exI [of _ 0]) (simp split: option.splits)
  have step: "?P mn mx s"
    if r: "rest s = c # r" and i: "in_char_set ic cs c" and nz: "mx \<noteq> Some 0"
      and p: "?P (mn - 1) (map_option (\<lambda>m. m - 1) mx) (advance s)" for c r
  proof -
    from p obtain n where n: "mn - 1 \<le> n" "(case map_option (\<lambda>m. m - 1) mx of None \<Rightarrow> True | Some m \<Rightarrow> n \<le> m)"
      "n \<le> length (rest (advance s))" "list_all (in_char_set ic cs) (take n (rest (advance s)))"
      "k (skip n (advance s)) = Some x" by blast
    show ?thesis
      apply (rule exI [of _ "Suc n"])
      using n r i nz by (auto simp: rest_advance skip_Suc split: option.splits)
  qed
  show ?case
  proof (cases "mx = Some 0")
    case True
    with "1.prems" show ?thesis
      by (subst (asm) repeat.simps) (auto intro!: exI [of _ 0])
  next
    case nz: False
    have wf': "(case map_option (\<lambda>m. m - 1) mx of None \<Rightarrow> True | Some m \<Rightarrow> mn - 1 \<le> m)"
      using "1.prems"(2) by (auto split: option.splits)
    have wf0: "(case map_option (\<lambda>m. m - 1) mx of None \<Rightarrow> True | Some m \<Rightarrow> 0 \<le> m)"
      by (auto split: option.splits)
    show ?thesis
    proof (cases "mn \<noteq> 0")
      case True
      from "1.prems"(1) nz True obtain c r where r: "rest s = c # r" and i: "in_char_set ic cs c"
        and rec: "repeat ic cs (mn - 1) (map_option (\<lambda>m. m - 1) mx) greedy (advance s) k = Some x"
        by (subst (asm) repeat.simps) (auto split: list.splits if_splits)
      from "1.IH"(1) [OF nz True r i rec wf'] show ?thesis
        by (rule step [OF r i nz])
    next
      case mn0: False
      then have mn: "mn = 0" by simp
      show ?thesis
      proof (cases greedy)
        case False
        show ?thesis
        proof (cases "k s")
          case (Some y)
          with "1.prems"(1) nz mn False have "k s = Some x"
            by (subst (asm) repeat.simps) auto
          then show ?thesis using mn by (rule zero)
        next
          case None
          from "1.prems"(1) nz mn False None obtain c r where r: "rest s = c # r" and i: "in_char_set ic cs c"
            and rec: "repeat ic cs 0 (map_option (\<lambda>m. m - 1) mx) greedy (advance s) k = Some x"
            by (subst (asm) repeat.simps) (auto split: list.splits if_splits)
          from "1.IH"(2) [OF nz _ _ None r i rec wf0] mn0 False
          have "?P 0 (map_option (\<lambda>m. m - 1) mx) (advance s)" by simp
          then show ?thesis using step [OF r i nz] mn by simp
        qed
      next
        case True
        show ?thesis
        proof (cases "\<exists>c r. rest s = c # r \<and> in_char_set ic cs c \<and> repeat ic cs 0 (map_option (\<lambda>m. m - 1) mx) greedy (advance s) k = Some x")
          case True
          then obtain c r where r: "rest s = c # r" and i: "in_char_set ic cs c"
            and rec: "repeat ic cs 0 (map_option (\<lambda>m. m - 1) mx) greedy (advance s) k = Some x"
            by blast
          from "1.IH"(3) [OF nz _ _ r i rec wf0] mn0 \<open>greedy\<close>
          have "?P 0 (map_option (\<lambda>m. m - 1) mx) (advance s)" by simp
          then show ?thesis using step [OF r i nz] mn by simp
        next
          case False
          with "1.prems"(1) nz mn True have "k s = Some x"
            by (subst (asm) repeat.simps) (auto split: list.splits if_splits option.splits)
          then show ?thesis using mn by (rule zero)
        qed
      qed
    qed
  qed
qed

lemma repeat_complete:
  "n \<le> length (rest s) \<Longrightarrow> list_all (in_char_set ic cs) (take n (rest s)) \<Longrightarrow> mn \<le> n \<Longrightarrow>
   (case mx of None \<Rightarrow> True | Some m \<Rightarrow> n \<le> m) \<Longrightarrow> k (skip n s) \<noteq> None \<Longrightarrow>
   repeat ic cs mn mx g s k \<noteq> None"
proof (induction n arbitrary: s mn mx)
  case 0
  then show ?case
    by (subst repeat.simps) (auto split: option.splits list.splits)
next
  case (Suc n)
  from Suc.prems(1) obtain c r where r: "rest s = c # r" by (cases "rest s") auto
  with Suc.prems(2) have i: "in_char_set ic cs c" by simp
  have nz: "mx \<noteq> Some 0" using Suc.prems(4) by (auto split: option.splits)
  have rec: "repeat ic cs (mn - 1) (map_option (\<lambda>m. m - 1) mx) g (advance s) k \<noteq> None"
  proof (rule Suc.IH)
    show "n \<le> length (rest (advance s))" using Suc.prems(1) r by (simp add: rest_advance)
    show "list_all (in_char_set ic cs) (take n (rest (advance s)))"
      using Suc.prems(2) r by (simp add: rest_advance)
    show "mn - 1 \<le> n" using Suc.prems(3) by simp
    show "case map_option (\<lambda>m. m - 1) mx of None \<Rightarrow> True | Some m \<Rightarrow> n \<le> m"
      using Suc.prems(4) by (auto split: option.splits)
    show "k (skip n (advance s)) \<noteq> None" using Suc.prems(5) r by (simp add: skip_Suc)
  qed
  show ?case
  proof (cases "mn = 0")
    case True
    with rec nz r i show ?thesis
      by (subst repeat.simps) (auto split: option.splits)
  next
    case False
    with rec nz r i show ?thesis
      by (subst repeat.simps) auto
  qed
qed

text \<open>
  Soundness: a result of the matcher comes from a state that the pattern reaches.
  Completeness: when the pattern reaches a state that the continuation accepts, the
  matcher does not fail.
\<close>

theorem matcher_sound:
  "matcher ic r s k = Some x \<Longrightarrow> well_formed r \<Longrightarrow> \<exists>s'. matches ic r s s' \<and> k s' = Some x"
proof (induction r arbitrary: s k)
  case (Char cs)
  then show ?case
    by (auto simp: advance_skip split: list.splits if_splits)
next
  case (Seq a b)
  from Seq.prems have "matcher ic a s (\<lambda>s'. matcher ic b s' k) = Some x" by simp
  from Seq.IH(1) [OF this] Seq.prems(2)
  obtain m where m: "matches ic a s m" "matcher ic b m k = Some x" by auto
  from Seq.IH(2) [OF m(2)] Seq.prems(2)
  obtain s' where "matches ic b m s'" "k s' = Some x" by auto
  with m(1) show ?case by auto
next
  case (Alt a b)
  from Alt.prems have "matcher ic a s k = Some x \<or> matcher ic b s k = Some x"
    by (auto split: option.splits)
  then show ?case
  proof
    assume "matcher ic a s k = Some x"
    from Alt.IH(1) [OF this] Alt.prems(2) show ?thesis by auto
  next
    assume "matcher ic b s k = Some x"
    from Alt.IH(2) [OF this] Alt.prems(2) show ?thesis by auto
  qed
next
  case (Group n r)
  from Group.prems have "matcher ic r s (\<lambda>s'. k (set_capture n s s')) = Some x" by simp
  from Group.IH [OF this] Group.prems(2) show ?case by auto
next
  case (Repeat cs mn mx g)
  then show ?case using repeat_sound [of ic cs mn mx g s k x] by auto
qed (auto split: if_splits)

theorem matcher_complete:
  "matches ic r s s' \<Longrightarrow> k s' \<noteq> None \<Longrightarrow> matcher ic r s k \<noteq> None"
proof (induction r arbitrary: s s' k)
  case (Char cs)
  then show ?case
    by (auto simp: advance_skip split: list.splits if_splits)
next
  case (Seq a b)
  from Seq.prems obtain m where m: "matches ic a s m" "matches ic b m s'" by auto
  have "matcher ic b m k \<noteq> None"
    using m(2) Seq.prems(2) by (rule Seq.IH(2))
  then have "matcher ic a s (\<lambda>s'. matcher ic b s' k) \<noteq> None"
    using Seq.IH(1) [of s m "\<lambda>s'. matcher ic b s' k"] m(1) by blast
  then show ?case by simp
next
  case (Alt a b)
  from Alt.prems have "matches ic a s s' \<or> matches ic b s s'" by simp
  then show ?case
  proof
    assume "matches ic a s s'"
    then have "matcher ic a s k \<noteq> None" using Alt.prems(2) by (rule Alt.IH(1))
    then show ?thesis by (auto split: option.splits)
  next
    assume "matches ic b s s'"
    then have "matcher ic b s k \<noteq> None" using Alt.prems(2) by (rule Alt.IH(2))
    then show ?thesis by (auto split: option.splits)
  qed
next
  case (Group n r)
  from Group.prems obtain m where m: "matches ic r s m" "s' = set_capture n s m" by auto
  have "matcher ic r s (\<lambda>s'. k (set_capture n s s')) \<noteq> None"
    using Group.IH [of s m "\<lambda>s'. k (set_capture n s s')"] m Group.prems(2) by blast
  then show ?case by simp
next
  case (Repeat cs mn mx g)
  then show ?case using repeat_complete [of _ s ic cs mn mx k g] by auto
qed auto

text \<open>A match moves inside the same input and never forgets a capture.\<close>

lemma matches_input:
  "matches ic r s s' \<Longrightarrow> rev (seen s') @ rest s' = rev (seen s) @ rest s"
proof (induction r arbitrary: s s')
  case (Char cs)
  then show ?case by (cases "rest s") (auto simp: skip_def)
next
  case (Repeat cs mn mx g)
  then show ?case by (auto simp: skip_def)
qed (auto simp: set_capture_def)

lemma matches_caps_mono:
  "matches ic r s s' \<Longrightarrow> caps s n \<noteq> None \<Longrightarrow> caps s' n \<noteq> None"
  by (induction r arbitrary: s s') (auto simp: skip_def set_capture_def)

subsection \<open>The search over start positions\<close>

lemma search_Some:
  "search ic r pre xs = Some e \<Longrightarrow>
   \<exists>pre' xs'. rev pre' @ xs' = rev pre @ xs \<and> matcher ic r (MState pre' xs' Map.empty) Some = Some e"
proof (induction xs arbitrary: pre)
  case Nil
  then show ?case by auto
next
  case (Cons c cs)
  show ?case
  proof (cases "matcher ic r (MState pre (c # cs) Map.empty) Some")
    case None
    with Cons.prems have "search ic r (c # pre) cs = Some e" by simp
    from Cons.IH [OF this] show ?thesis by auto
  next
    case (Some a)
    with Cons.prems show ?thesis by auto
  qed
qed

lemma search_None:
  "search ic r pre (xs @ ys) = None \<Longrightarrow> matcher ic r (MState (rev xs @ pre) ys Map.empty) Some = None"
proof (induction xs arbitrary: pre)
  case Nil
  then show ?case by (cases ys) (auto split: option.splits)
next
  case (Cons c cs)
  from Cons.prems have "search ic r (c # pre) (cs @ ys) = None"
    by (auto split: option.splits)
  from Cons.IH [OF this] show ?case by simp
qed

lemma search_Bol: "pre \<noteq> [] \<Longrightarrow> search ic (Seq Bol r) pre xs = None"
  by (induction xs arbitrary: pre) auto

lemma search_anchored:
  "search ic (Seq Bol r) [] xs = matcher ic (Seq Bol r) (MState [] xs Map.empty) Some"
  by (cases xs) (auto simp: search_Bol split: option.splits)

subsection \<open>Percentages in a text\<close>

lemma not_ws_percent: "\<not> is_white_space 0x25"
  by (simp add: is_white_space_def)

lemma has_percentage_append: "has_percentage ys \<Longrightarrow> has_percentage (xs @ ys)"
  by (induction xs) auto

lemma has_percentage_here:
  "is_digit d \<Longrightarrow> list_all is_white_space ws \<Longrightarrow> has_percentage (d # ws @ 0x25 # ys)"
proof -
  assume d: "is_digit d" and ws: "list_all is_white_space ws"
  have "dropWhile is_white_space (ws @ 0x25 # ys) = 0x25 # ys"
    using ws by (induction ws) (auto simp: not_ws_percent)
  with d show ?thesis by simp
qed

lemma has_percentage_split:
  "has_percentage s \<Longrightarrow>
   \<exists>xs d ws ys. s = xs @ d # ws @ 0x25 # ys \<and> is_digit d \<and> list_all is_white_space ws"
proof (induction s)
  case Nil
  then show ?case by simp
next
  case (Cons c cs)
  show ?case
  proof (cases "is_digit c \<and> (case dropWhile is_white_space cs of [] \<Rightarrow> False | p # _ \<Rightarrow> p = 0x25)")
    case True
    then obtain ys where ys: "dropWhile is_white_space cs = 0x25 # ys"
      by (auto split: list.splits)
    have "cs = takeWhile is_white_space cs @ 0x25 # ys"
      using ys takeWhile_dropWhile_id [of is_white_space cs] by simp
    moreover have "list_all is_white_space (takeWhile is_white_space cs)"
      by (simp add: list_all_iff) (meson set_takeWhileD)
    ultimately show ?thesis using True
      by (intro exI [of _ "[]"] exI [of _ c] exI [of _ "takeWhile is_white_space cs"] exI [of _ ys]) simp
  next
    case False
    with Cons.prems have "has_percentage cs" by auto
    from Cons.IH [OF this] obtain xs d ws ys where
      "cs = xs @ d # ws @ 0x25 # ys" "is_digit d" "list_all is_white_space ws" by blast
    then show ?thesis
      by (intro exI [of _ "c # xs"] exI [of _ d] exI [of _ ws] exI [of _ ys]) simp
  qed
qed

subsection \<open>What the four patterns capture\<close>

text \<open>The end \<open>(\d{1,3})%\<close> of a pattern captures one to three digits before a \<open>%\<close>.\<close>

lemma digits_percent:
  assumes "matches ic (Seq (Group n (Repeat (One DigitEscape) 1 (Some 3) True)) (Char (One (Chr 0x25)))) t e"
  shows "\<exists>ds ys. rest t = ds @ 0x25 # ys \<and> ds \<noteq> [] \<and> length ds \<le> 3 \<and> list_all is_digit ds
           \<and> caps e = (caps t)(n \<mapsto> ds)"
proof -
  from assms obtain k where k: "1 \<le> k" "k \<le> 3" "k \<le> length (rest t)"
      "list_all is_digit (take k (rest t))"
      and e: "rest (skip k t) \<noteq> []" "canonicalize ic (hd (rest (skip k t))) = canonicalize ic 0x25"
         "e = skip 1 (set_capture n t (skip k t))"
    by (auto simp: list_all_iff set_capture_def skip_def)
  have p: "hd (drop k (rest t)) = 0x25"
    using e(2) by (auto simp: skip_def canonicalize_def ascii_upper_def split: if_splits)
  have "rest t = take k (rest t) @ 0x25 # tl (drop k (rest t))"
    using e(1) p by (metis append_take_drop_id hd_Cons_tl mstate.sel(2) skip_def)
  moreover have "caps e = (caps t)(n \<mapsto> take k (rest t))"
    using e(3) k(3) by (simp add: set_capture_def skip_def)
  ultimately show ?thesis using k
    by (intro exI [of _ "take k (rest t)"] exI [of _ "tl (drop k (rest t))"]) auto
qed

lemma well_formed_literal [simp]: "well_formed (literal cs)"
  by (induction cs rule: literal.induct) auto

lemma well_formed_patterns:
  "well_formed yes_pattern" "well_formed strict_pattern"
  "well_formed score_pattern" "well_formed reason_pattern"
  by (simp_all add: yes_pattern_def strict_pattern_def score_pattern_def reason_pattern_def)

lemma search_matches:
  assumes "search ic r [] s = Some e" and "well_formed r"
  shows "\<exists>pre xs. rev pre @ xs = s \<and> matches ic r (MState pre xs Map.empty) e"
proof -
  from search_Some [OF assms(1)] obtain pre xs where
    inp: "rev pre @ xs = s" and m: "matcher ic r (MState pre xs Map.empty) Some = Some e"
    by auto
  from matcher_sound [OF m assms(2)] inp show ?thesis by auto
qed

lemma strict_match_groups:
  assumes "string_match True strict_pattern s = Some m"
  shows "(\<exists>g. m 2 = Some g) \<and> (\<exists>ds. m 3 = Some ds \<and> ds \<noteq> [] \<and> list_all is_digit ds)
         \<and> has_percentage s"
proof -
  from assms obtain e where e: "search True strict_pattern [] s = Some e" and m: "m = caps e"
    by (auto simp: string_match_def)
  from search_matches [OF e well_formed_patterns(2)] obtain pre xs where
    inp: "rev pre @ xs = s" and "matches True strict_pattern (MState pre xs Map.empty) e"
    by auto
  then obtain a b c t where
    b: "matches True (Group 2 (Repeat Dot 1 None False)) a b"
    and c: "matches True (Repeat (Class [Chr 0x2C, WhiteSpaceEscape]) 1 None True) b c"
    and t: "matches True (Seq (Group 3 (Repeat (One DigitEscape) 1 (Some 3) True)) (Char (One (Chr 0x25)))) c e"
    and pc: "matches True (Seq Bol (Seq (Group 1 (Alt (literal (js ''yes'')) (literal (js ''no''))))
      (Seq (Repeat (Class [Chr 0x2C, WhiteSpaceEscape]) 1 None True)
      (Seq (Group 2 (Repeat Dot 1 None False)) (Repeat (Class [Chr 0x2C, WhiteSpaceEscape]) 1 None True)))))
        (MState pre xs Map.empty) c"
    unfolding strict_pattern_def matches.simps(3) by blast
  from digits_percent [OF t] obtain ds ys where
    ds: "rest c = ds @ 0x25 # ys" "ds \<noteq> []" "list_all is_digit ds" "caps e = (caps c)(3 \<mapsto> ds)"
    by blast
  from b have "caps b 2 \<noteq> None" by (auto simp: set_capture_def)
  with c have "caps c 2 \<noteq> None" using matches_caps_mono by blast
  with ds(4) m have g2: "\<exists>g. m 2 = Some g" by auto
  from matches_input [OF pc] inp have "s = rev (seen c) @ rest c" by simp
  with ds have "s = (rev (seen c) @ butlast ds) @ last ds # [] @ 0x25 # ys"
    by simp
  moreover have "is_digit (last ds)" using ds(2,3) by (simp add: list_all_iff)
  ultimately have "has_percentage s"
    using has_percentage_append [OF has_percentage_here [of "last ds" "[]" ys], of "rev (seen c) @ butlast ds"]
    by simp
  with g2 ds m show ?thesis by auto
qed

lemma score_match_groups:
  assumes "string_match False score_pattern s = Some m"
  shows "(\<exists>ds. m 1 = Some ds \<and> ds \<noteq> [] \<and> list_all is_digit ds) \<and> has_percentage s"
proof -
  from assms obtain e where e: "search False score_pattern [] s = Some e" and m: "m = caps e"
    by (auto simp: string_match_def)
  from search_matches [OF e well_formed_patterns(3)] obtain pre xs where
    inp: "rev pre @ xs = s" and "matches False score_pattern (MState pre xs Map.empty) e"
    by auto
  then obtain k j where k: "1 \<le> k" "k \<le> length xs" "list_all is_digit (take k xs)"
    and j: "j \<le> length (drop k xs)" "list_all is_white_space (take j (drop k xs))"
    and p: "drop j (drop k xs) \<noteq> []" "hd (drop j (drop k xs)) = 0x25"
    and c: "caps e 1 = Some (take k xs)"
    by (auto simp: score_pattern_def set_capture_def skip_def canonicalize_def list_all_iff)
  let ?ds = "take k xs"
  let ?r = "drop k xs"
  have ne: "?ds \<noteq> []" using k by auto
  have x1: "xs = ?ds @ ?r" by simp
  have x2: "?r = take j ?r @ drop j ?r" by (simp only: append_take_drop_id)
  have x3: "drop j ?r = 0x25 # tl (drop j ?r)" using p by (metis hd_Cons_tl)
  have x4: "?ds = butlast ?ds @ [last ?ds]" using ne by simp
  have "s = rev pre @ (butlast ?ds @ [last ?ds]) @ take j ?r @ 0x25 # tl (drop j ?r)"
    using inp x1 x2 x3 x4 by metis
  then have "s = (rev pre @ butlast ?ds) @ last ?ds # take j ?r @ 0x25 # tl (drop j ?r)"
    by simp
  moreover have "is_digit (last ?ds)" using ne k(3) by (simp add: list_all_iff)
  ultimately have "has_percentage s"
    using has_percentage_append [OF has_percentage_here [OF _ j(2)]] by metis
  with c ne k(3) m show ?thesis by simp
qed

lemma score_match_complete:
  assumes "has_percentage s"
  shows "string_match False score_pattern s \<noteq> None"
proof
  assume "string_match False score_pattern s = None"
  then have none: "search False score_pattern [] s = None"
    by (simp add: string_match_def)
  from has_percentage_split [OF assms] obtain xs d ws ys where
    s: "s = xs @ d # ws @ 0x25 # ys" and d: "is_digit d" and ws: "list_all is_white_space ws"
    by blast
  let ?t = "MState (rev xs) (d # ws @ 0x25 # ys) Map.empty"
  define a where "a = set_capture 1 ?t (skip 1 ?t)"
  define b where "b = skip (length ws) a"
  have "matcher False score_pattern ?t Some = None"
    using search_None [of False score_pattern "[]" xs "d # ws @ 0x25 # ys"] none s by simp
  moreover have "matches False score_pattern ?t (skip 1 b)"
  proof -
    have g: "matches False (Group 1 (Repeat (One DigitEscape) 1 (Some 3) True)) ?t a"
      unfolding a_def using d by (auto intro!: exI [of _ "skip 1 ?t"] exI [of _ 1])
    have r: "rest a = ws @ 0x25 # ys"
      by (simp add: a_def set_capture_def skip_def)
    have w: "matches False (Repeat (One WhiteSpaceEscape) 0 None True) a b"
      unfolding b_def using ws by (auto intro!: exI [of _ "length ws"] simp: r list_all_iff)
    have "rest b = 0x25 # ys"
      by (simp add: b_def skip_def r)
    then have p: "matches False (Char (One (Chr 0x25))) b (skip 1 b)"
      by simp
    from g w p show ?thesis
      unfolding score_pattern_def matches.simps(3) by blast
  qed
  ultimately show False
    using matcher_complete [of False score_pattern ?t _ Some] by blast
qed

lemma reason_match_group:
  assumes "string_match False reason_pattern s = Some m"
  shows "\<exists>g. m 1 = Some g"
proof -
  from assms obtain e where e: "search False reason_pattern [] s = Some e" and m: "m = caps e"
    by (auto simp: string_match_def)
  from search_matches [OF e well_formed_patterns(4)] obtain pre xs where
    "matches False reason_pattern (MState pre xs Map.empty) e"
    by auto
  then obtain a b where
    b: "matches False (Group 1 (Repeat Dot 1 None False)) a b"
    and t: "matches False (Seq (Char (One (Chr 0x2C)))
      (Seq (Repeat (One WhiteSpaceEscape) 0 None True)
      (Seq (Repeat (One DigitEscape) 1 (Some 3) True) (Char (One (Chr 0x25)))))) b e"
    unfolding reason_pattern_def matches.simps(3) by blast
  from b have "caps b 1 \<noteq> None" by (auto simp: set_capture_def)
  with t have "caps e 1 \<noteq> None" using matches_caps_mono by blast
  with m show ?thesis by auto
qed

subsection \<open>The score of a captured run of digits\<close>

lemma digit_not_space: "is_digit c \<Longrightarrow> \<not> is_white_space c"
  by (auto simp: is_digit_def is_white_space_def word_le_nat_alt)

lemma digit_not_sign: "is_digit c \<Longrightarrow> c \<noteq> 0x2D \<and> c \<noteq> 0x2B"
  by (auto simp: is_digit_def)

lemma parseInt_digits:
  assumes "ds \<noteq> []" and "list_all is_digit ds"
  shows "parseInt ds = Num (of_int (digits_value ds))"
proof -
  from assms obtain c cs where ds: "ds = c # cs" and c: "is_digit c"
    by (cases ds) auto
  have t: "takeWhile is_digit cs = cs"
    using assms(2) by (simp add: ds list_all_iff takeWhile_eq_all_conv)
  show ?thesis
    using c digit_not_space [OF c] digit_not_sign [OF c]
    by (simp add: parseInt_def ds t)
qed

lemma score_of_capture_range:
  assumes "ds \<noteq> []" and "list_all is_digit ds"
  shows "\<exists>r. score_of_capture (Some ds) = Num r \<and> 0 \<le> r \<and> r \<le> 1"
proof -
  have "score_of_capture (Some ds) = Num (min 100 (max 0 (of_int (digits_value ds))) / 100)"
    by (simp add: score_of_capture_def parseInt_digits [OF assms])
  moreover have "0 \<le> min 100 (max 0 (real_of_int (digits_value ds))) / 100"
    by simp
  moreover have "min 100 (max 0 (real_of_int (digits_value ds))) / 100 \<le> 1"
    by simp
  ultimately show ?thesis by blast
qed

subsection \<open>The verdict and the shape of every parse\<close>

lemma canonicalize_upper:
  "canonicalize True c = 0x59 \<longleftrightarrow> c = 0x59 \<or> c = 0x79"
  "canonicalize True c = 0x45 \<longleftrightarrow> c = 0x45 \<or> c = 0x65"
  "canonicalize True c = 0x53 \<longleftrightarrow> c = 0x53 \<or> c = 0x73"
  by (auto simp: canonicalize_def ascii_upper_def)

lemma yes_test: "regex_test True yes_pattern t = starts_with_yes_token t"
proof -
  have lit: "canonicalize True 0x79 = 0x59" "canonicalize True 0x65 = 0x45" "canonicalize True 0x73 = 0x53"
    by (simp_all add: canonicalize_def ascii_upper_def)
  have w: "is_word_char 0x53" "is_word_char 0x73"
    by (simp_all add: is_word_char_def is_digit_def)
  show ?thesis
    unfolding regex_test_def yes_pattern_def search_anchored
    by (auto simp: starts_with_yes_token_def js_def advance_def at_word_boundary_def lit w
          canonicalize_upper split: list.splits)
qed

lemma parse_response_shape:
  "\<exists>reason score.
     parse_response uc content =
       Success \<lparr>is_deductible = starts_with_yes_token (trim content),
                deductible_reason = reason, deduction_score = score\<rparr>
     \<and> (score = None \<longleftrightarrow> \<not> has_percentage content)
     \<and> (\<forall>x. score = Some x \<longrightarrow> (\<exists>r. x = Num r \<and> 0 \<le> r \<and> r \<le> 1))"
proof (cases "string_match True strict_pattern content")
  case (Some m)
  from strict_match_groups [OF Some] obtain g ds where
    g: "m 2 = Some g" and ds: "m 3 = Some ds" "ds \<noteq> []" "list_all is_digit ds"
    and hp: "has_percentage content" by blast
  from score_of_capture_range [OF ds(2,3)] obtain r where
    r: "score_of_capture (Some ds) = Num r" "0 \<le> r" "r \<le> 1" by blast
  show ?thesis
    using Some g ds(1) hp r by (simp add: parse_response_def yes_test)
next
  case None
  note strict = None
  have score: "\<exists>score.
      (case string_match False score_pattern content of
         Some scoreMatch \<Rightarrow> Some (score_of_capture (scoreMatch 1)) | None \<Rightarrow> None) = score
      \<and> (score = None \<longleftrightarrow> \<not> has_percentage content)
      \<and> (\<forall>x. score = Some x \<longrightarrow> (\<exists>r. x = Num r \<and> 0 \<le> r \<and> r \<le> 1))"
  proof (cases "string_match False score_pattern content")
    case None
    then show ?thesis using score_match_complete [of content] by auto
  next
    case (Some sm)
    from score_match_groups [OF Some] obtain ds where
      ds: "sm 1 = Some ds" "ds \<noteq> []" "list_all is_digit ds" and hp: "has_percentage content"
      by blast
    from score_of_capture_range [OF ds(2,3)] obtain r where
      r: "score_of_capture (Some ds) = Num r" "0 \<le> r" "r \<le> 1" by blast
    show ?thesis using Some ds(1) hp r by simp
  qed
  then obtain score where
    sc: "(case string_match False score_pattern content of
         Some scoreMatch \<Rightarrow> Some (score_of_capture (scoreMatch 1)) | None \<Rightarrow> None) = score"
    and p: "score = None \<longleftrightarrow> \<not> has_percentage content"
      "\<forall>x. score = Some x \<longrightarrow> (\<exists>r. x = Num r \<and> 0 \<le> r \<and> r \<le> 1)"
    by blast
  show ?thesis
  proof (cases "string_match False reason_pattern content")
    case None
    show ?thesis
      using strict None p by (simp add: parse_response_def yes_test sc)
  next
    case (Some rm)
    from reason_match_group [OF Some] obtain g where g: "rm 1 = Some g" by blast
    show ?thesis
      using strict Some g p by (simp add: parse_response_def yes_test sc)
  qed
qed

section \<open>The claims about the response parser\<close>

text \<open>
  Claim C1. The two canonical replies parse to the outputs that the specification
  gives: verdict, reason and score 0.85 and 0.95. The third reply shows the first
  letter of the reason being put in upper case.
\<close>

theorem parse_canonical_examples:
  "parse_response uc (js ''Yes, Office supplies for business operations, 85%'') =
     Success \<lparr>is_deductible = True,
              deductible_reason = js ''Office supplies for business operations'',
              deduction_score = Some (Num 0.85)\<rparr>
   \<and> parse_response uc (js ''No, Personal entertainment expense, 95%'') =
     Success \<lparr>is_deductible = False,
              deductible_reason = js ''Personal entertainment expense'',
              deduction_score = Some (Num 0.95)\<rparr>
   \<and> parse_response uc (js ''Yes, office supplies, 85%'') =
     Success \<lparr>is_deductible = True,
              deductible_reason = js ''Office supplies'',
              deduction_score = Some (Num 0.85)\<rparr>"
  by code_simp

text \<open>
  Claim C2. Whatever the reply, a score that is not \<open>null\<close> is a number between 0
  and 1. A percentage of 150 gives exactly 1 on the strict path (the strict pattern
  matches the first reply) and on the fallback path (it does not match the second).
\<close>

theorem deduction_score_in_unit_interval:
  "(parse_response uc content = Success v \<longrightarrow> deduction_score v = Some x \<longrightarrow>
      (\<exists>r. x = Num r \<and> 0 \<le> r \<and> r \<le> 1))
   \<and> string_match True strict_pattern (js ''Yes, Travel, 150%'') \<noteq> None
   \<and> parse_response uc (js ''Yes, Travel, 150%'') =
       Success \<lparr>is_deductible = True, deductible_reason = js ''Travel'',
                deduction_score = Some (Num 1)\<rparr>
   \<and> string_match True strict_pattern (js ''around 150%'') = None
   \<and> parse_response uc (js ''around 150%'') =
       Success \<lparr>is_deductible = False, deductible_reason = js ''No reason provided'',
                deduction_score = Some (Num 1)\<rparr>"
proof -
  have range: "parse_response uc content = Success v \<longrightarrow> deduction_score v = Some x \<longrightarrow>
      (\<exists>r. x = Num r \<and> 0 \<le> r \<and> r \<le> 1)"
    using parse_response_shape [of uc content] by auto
  have "regex_test True strict_pattern (js ''Yes, Travel, 150%'')"
    by code_simp
  then have strict: "string_match True strict_pattern (js ''Yes, Travel, 150%'') \<noteq> None"
    by (simp add: regex_test_def string_match_def)
  have "\<not> regex_test True strict_pattern (js ''around 150%'')"
    by code_simp
  then have fallback: "string_match True strict_pattern (js ''around 150%'') = None"
    by (simp add: regex_test_def string_match_def)
  have p1: "parse_response uc (js ''Yes, Travel, 150%'') =
       Success \<lparr>is_deductible = True, deductible_reason = js ''Travel'',
                deduction_score = Some (Num 1)\<rparr>"
    by code_simp
  have p2: "parse_response uc (js ''around 150%'') =
       Success \<lparr>is_deductible = False, deductible_reason = js ''No reason provided'',
                deduction_score = Some (Num 1)\<rparr>"
    by code_simp
  from range strict fallback p1 p2 show ?thesis by blast
qed

theorem deduction_score_in_unit_interval_witness:
  "parse_response ascii_case_table (js ''Likely deductible: 42 %'') =
     Success \<lparr>is_deductible = False, deductible_reason = js ''No reason provided'',
              deduction_score = Some (Num 0.42)\<rparr>
   \<and> (\<exists>r. Num 0.42 = Num r \<and> 0 \<le> r \<and> r \<le> 1)"
proof -
  have p: "parse_response ascii_case_table (js ''Likely deductible: 42 %'') =
     Success \<lparr>is_deductible = False, deductible_reason = js ''No reason provided'',
              deduction_score = Some (Num 0.42)\<rparr>"
    by code_simp
  with deduction_score_in_unit_interval [of ascii_case_table "js ''Likely deductible: 42 %''"
      "\<lparr>is_deductible = False, deductible_reason = js ''No reason provided'',
        deduction_score = Some (Num 0.42)\<rparr>" "Num 0.42"]
  show ?thesis by simp
qed

text \<open>
  Claim C3 says that on the reply without commas the strict pattern fails and the reason
  is the default. It does not: the separators \<open>[,\s]+\<close> of the strict pattern accept
  white space, so the strict pattern matches, and the reason is the text between the
  verdict and the score.
\<close>

theorem comma_free_default_reason_counterexample:
  "string_match True strict_pattern (js ''yes this seems fine 60%'') \<noteq> None
   \<and> parse_response ascii_case_table (js ''yes this seems fine 60%'') =
       Success \<lparr>is_deductible = True, deductible_reason = js ''This seems fine'',
                deduction_score = Some (Num 0.6)\<rparr>
   \<and> js ''This seems fine'' \<noteq> js ''No reason provided''"
proof -
  have "regex_test True strict_pattern (js ''yes this seems fine 60%'')"
    by code_simp
  then have "string_match True strict_pattern (js ''yes this seems fine 60%'') \<noteq> None"
    by (simp add: regex_test_def string_match_def)
  moreover have "parse_response ascii_case_table (js ''yes this seems fine 60%'') =
       Success \<lparr>is_deductible = True, deductible_reason = js ''This seems fine'',
                deduction_score = Some (Num 0.6)\<rparr>"
    by code_simp
  moreover have "js ''This seems fine'' \<noteq> js ''No reason provided''"
    by code_simp
  ultimately show ?thesis by blast
qed

text \<open>
  Claim C3, amended. The reply without commas takes the strict path: the strict pattern
  matches with white space as the separators, the score is 0.60 and the reason is
  "This seems fine", the captured text with its first letter in upper case.
\<close>

theorem comma_free_takes_strict_path:
  "string_match True strict_pattern (js ''yes this seems fine 60%'') \<noteq> None
   \<and> parse_response uc (js ''yes this seems fine 60%'') =
       Success \<lparr>is_deductible = True, deductible_reason = js ''This seems fine'',
                deduction_score = Some (Num 0.6)\<rparr>"
proof -
  have "regex_test True strict_pattern (js ''yes this seems fine 60%'')"
    by code_simp
  then have "string_match True strict_pattern (js ''yes this seems fine 60%'') \<noteq> None"
    by (simp add: regex_test_def string_match_def)
  moreover have "parse_response uc (js ''yes this seems fine 60%'') =
       Success \<lparr>is_deductible = True, deductible_reason = js ''This seems fine'',
                deduction_score = Some (Num 0.6)\<rparr>"
    by code_simp
  ultimately show ?thesis by blast
qed

text \<open>
  Claim C6. The empty reply parses to the verdict \<open>false\<close>, the default reason and the
  score \<open>null\<close>.
\<close>

theorem parse_empty_string:
  "parse_response uc (js '''') =
     Success \<lparr>is_deductible = False,
              deductible_reason = js ''No reason provided'',
              deduction_score = None\<rparr>"
  by code_simp

text \<open>
  Claim C7 says that the verdict is true exactly when the string starts with the token
  "yes". It is not so for a reply with leading white space: the test is made on the
  trimmed string, so the verdict is true although the string starts with a space.
\<close>

theorem is_deductible_leading_space_counterexample:
  "parse_response ascii_case_table (js '' Yes, Office supplies, 85%'') =
     Success \<lparr>is_deductible = True, deductible_reason = js ''Office supplies'',
              deduction_score = Some (Num 0.85)\<rparr>
   \<and> \<not> starts_with_yes_token (js '' Yes, Office supplies, 85%'')"
  by code_simp

text \<open>
  Claim C7, amended. For every reply the parse succeeds and the verdict is true exactly
  when the reply, with the white space at its two ends removed, starts with the token
  "yes" in either case; it is false otherwise, also for an empty or malformed reply.
\<close>

theorem is_deductible_iff_trimmed_yes_token:
  "\<exists>v. parse_response uc content = Success v
       \<and> is_deductible v = starts_with_yes_token (trim content)"
  using parse_response_shape [of uc content] by auto

theorem is_deductible_iff_trimmed_yes_token_witness:
  "starts_with_yes_token (trim (js '' yes ''))
   \<and> (\<exists>v. parse_response ascii_case_table (js '' yes '') = Success v \<and> is_deductible v)"
proof -
  have "starts_with_yes_token (trim (js '' yes ''))"
    by code_simp
  with is_deductible_iff_trimmed_yes_token [of ascii_case_table "js '' yes ''"]
  show ?thesis by simp
qed

text \<open>
  Claim C8. For every reply the parse returns the success object with a verdict, a
  reason and a score, never the failure object; and the score is \<open>null\<close> only when the
  text holds no percentage (and whenever it holds none).
\<close>

theorem parse_never_fails:
  "success (parse_response uc content)
   \<and> (\<exists>v. parse_response uc content = Success v
          \<and> (deduction_score v = None \<longleftrightarrow> \<not> has_percentage content))"
  using parse_response_shape [of uc content] by auto

theorem parse_never_fails_witness:
  "\<not> has_percentage (js ''I cannot tell'')
   \<and> success (parse_response ascii_case_table (js ''I cannot tell''))
   \<and> (\<exists>v. parse_response ascii_case_table (js ''I cannot tell'') = Success v
          \<and> deduction_score v = None)"
proof -
  have "\<not> has_percentage (js ''I cannot tell'')"
    by code_simp
  with parse_never_fails [of ascii_case_table "js ''I cannot tell''"]
  show ?thesis by simp
qed

section \<open>The claims about the ingestion loop and the bank operations\<close>

text \<open>
  The calls of getUser read the users table. The loops of fetchTransactions return when
  the store and the bank return, whatever the analysis does, and make one insert for
  each transaction.
\<close>

lemmas io_defs = return_def throw_def and_then_def try_catch_def perform_def

lemma getUser_events:
  "getUser sv userId tr = (out, tr') \<Longrightarrow> \<exists>new. tr' = tr @ new \<and> list_all is_user_read new"
  by (auto simp: getUser_def io_defs split: outcome.splits option.splits if_splits prod.splits)

lemma analysis_request_not_insert: "\<not> is_insert (analysis_request txn)"
  by (simp add: analysis_request_def)

lemma store_transaction_ok:
  assumes "\<forall>t d. \<exists>q. transactions_insert sv t d = Returns q"
  shows "\<exists>new. store_transaction sv account txn tr = (Returns (), tr @ new)
           \<and> length (filter is_insert new) = 1"
proof -
  let ?req = "analysis_request txn"
  have ins: "\<And>d. \<exists>q. transactions_insert sv (tr @ [?req]) d = Returns q"
    using assms by blast
  show ?thesis
  proof (cases "analysis_call sv txn tr")
    case (Returns a)
    show ?thesis
    proof (cases a)
      case (Success v)
      let ?d = "(new_transaction_data account txn)
           \<lparr>t_is_deductible := Some (is_deductible v),
            t_deductible_reason := Some (deductible_reason v),
            t_deduction_score := deduction_score v\<rparr>"
      from ins [of ?d] obtain q where "transactions_insert sv (tr @ [?req]) ?d = Returns q" ..
      with Returns Success show ?thesis
        by (intro exI [of _ "[?req, TransactionsInsert ?d]"])
           (simp add: store_transaction_def addTransaction_def io_defs Let_def
              analysis_request_not_insert)
    next
      case (Failure e)
      let ?d = "(new_transaction_data account txn)
           \<lparr>t_is_deductible := Some False,
            t_deductible_reason := Some (js ''Analysis failed - requires manual review''),
            t_deduction_score := Some (Num 0)\<rparr>"
      from ins [of ?d] obtain q where "transactions_insert sv (tr @ [?req]) ?d = Returns q" ..
      with Returns Failure show ?thesis
        by (intro exI [of _ "[?req, TransactionsInsert ?d]"])
           (simp add: store_transaction_def addTransaction_def io_defs Let_def
              analysis_request_not_insert)
    qed
  next
    case (Throws x)
    let ?d = "(new_transaction_data account txn)
           \<lparr>t_is_deductible := Some False,
            t_deductible_reason := Some (js ''Analysis error - requires manual review''),
            t_deduction_score := Some (Num 0)\<rparr>"
    from ins [of ?d] obtain q where "transactions_insert sv (tr @ [?req]) ?d = Returns q" ..
    with Throws show ?thesis
      by (intro exI [of _ "[?req, TransactionsInsert ?d]"])
         (simp add: store_transaction_def addTransaction_def io_defs Let_def
              analysis_request_not_insert)
  qed
qed

lemma store_transactions_ok:
  assumes "\<forall>t d. \<exists>q. transactions_insert sv t d = Returns q"
  shows "\<exists>new. store_transactions sv account txns tr = (Returns (), tr @ new)
           \<and> length (filter is_insert new) = length txns"
proof (induction txns arbitrary: tr)
  case Nil
  show ?case by (simp add: return_def)
next
  case (Cons txn txns)
  from store_transaction_ok [OF assms, of account txn tr] obtain n1 where
    n1: "store_transaction sv account txn tr = (Returns (), tr @ n1)"
      "length (filter is_insert n1) = 1" by blast
  from Cons.IH [of "tr @ n1"] obtain n2 where
    n2: "store_transactions sv account txns (tr @ n1) = (Returns (), (tr @ n1) @ n2)"
      "length (filter is_insert n2) = length txns" by blast
  show ?case
    using n1 n2 by (intro exI [of _ "n1 @ n2"]) (simp add: and_then_def)
qed

lemma store_accounts_ok:
  assumes "\<forall>t u. \<exists>q. getAccounts sv t u = Returns q"
    and "\<forall>t a u. \<exists>q. addAccount sv t a u = Returns q"
  shows "\<exists>new. store_accounts sv userId accounts tr = (Returns (), tr @ new)
           \<and> filter is_insert new = []"
proof (induction accounts arbitrary: tr)
  case Nil
  show ?case by (simp add: return_def)
next
  case (Cons account accounts)
  from assms(1) obtain q where q: "getAccounts sv tr userId = Returns q" by blast
  let ?t1 = "tr @ [GetAccounts userId]"
  let ?ex = "case data q of None \<Rightarrow> False
             | Some rows \<Rightarrow> list_ex (\<lambda>acc. row_account_id acc = account_id account) rows"
  show ?case
  proof (cases ?ex)
    case True
    from Cons.IH [of ?t1] obtain n2 where
      n2: "store_accounts sv userId accounts ?t1 = (Returns (), ?t1 @ n2)"
        "filter is_insert n2 = []" by blast
    show ?thesis
      using q True n2
      by (intro exI [of _ "GetAccounts userId # n2"]) (simp add: io_defs)
  next
    case False
    from assms(2) obtain q' where
      q': "addAccount sv ?t1 (account_id account) userId = Returns q'" by blast
    let ?t2 = "?t1 @ [AddAccount (account_id account) userId]"
    from Cons.IH [of ?t2] obtain n2 where
      n2: "store_accounts sv userId accounts ?t2 = (Returns (), ?t2 @ n2)"
        "filter is_insert n2 = []" by blast
    show ?thesis
      using q q' False n2
      by (intro exI [of _ "GetAccounts userId # AddAccount (account_id account) userId # n2"])
         (simp add: io_defs)
  qed
qed

lemma fetch_account_transactions_ok:
  assumes txs: "\<forall>t a. a \<in> set accounts \<longrightarrow>
      (\<exists>resp. transactionsGet sv t token (account_id a) = Returns resp
         \<and> transactions resp = fetched (account_id a))"
    and ins: "\<forall>t d. \<exists>q. transactions_insert sv t d = Returns q"
    and upd: "\<forall>t a c. \<exists>q. updateAccount sv t a c = Returns q"
  shows "\<exists>new. fetch_account_transactions sv token accounts count0 tr =
             (Returns (count0 + (\<Sum>a\<leftarrow>accounts. length (fetched (account_id a)))), tr @ new)
           \<and> length (filter is_insert new) = (\<Sum>a\<leftarrow>accounts. length (fetched (account_id a)))"
  using txs
proof (induction accounts arbitrary: count0 tr)
  case Nil
  show ?case by (simp add: return_def)
next
  case (Cons account accounts)
  let ?get = "TransactionsGet token (account_id account)"
  from Cons.prems obtain resp where
    resp: "transactionsGet sv tr token (account_id account) = Returns resp"
      "transactions resp = fetched (account_id account)" by auto
  from store_transactions_ok [OF ins, of account "transactions resp" "tr @ [?get]"]
  obtain n1 where
    n1: "store_transactions sv account (transactions resp) (tr @ [?get]) =
           (Returns (), (tr @ [?get]) @ n1)"
      "length (filter is_insert n1) = length (transactions resp)" by blast
  let ?cursor = "case request_id resp of
        None \<Rightarrow> return ()
      | Some rid \<Rightarrow>
          if rid = [] then return ()
          else and_then
                 (perform (\<lambda>tr. updateAccount sv tr (account_id account) rid)
                    (UpdateAccount (account_id account) rid))
                 (\<lambda>_. return ())"
  have "\<exists>n2. ?cursor ((tr @ [?get]) @ n1) = (Returns (), ((tr @ [?get]) @ n1) @ n2)
          \<and> filter is_insert n2 = []"
  proof (cases "request_id resp")
    case None
    then show ?thesis by (simp add: return_def)
  next
    case (Some rid)
    show ?thesis
    proof (cases "rid = []")
      case True
      with Some show ?thesis by (simp add: return_def)
    next
      case False
      from upd obtain q where
        "updateAccount sv ((tr @ [?get]) @ n1) (account_id account) rid = Returns q" by blast
      with Some False show ?thesis
        by (intro exI [of _ "[UpdateAccount (account_id account) rid]"]) (simp add: io_defs)
    qed
  qed
  then obtain n2 where
    n2: "?cursor ((tr @ [?get]) @ n1) = (Returns (), ((tr @ [?get]) @ n1) @ n2)"
      "filter is_insert n2 = []" by blast
  have "\<forall>t a. a \<in> set accounts \<longrightarrow>
      (\<exists>resp. transactionsGet sv t token (account_id a) = Returns resp
         \<and> transactions resp = fetched (account_id a))"
    using Cons.prems by simp
  from Cons.IH [OF this, of "count0 + length (transactions resp)" "((tr @ [?get]) @ n1) @ n2"]
  obtain n3 where
    n3: "fetch_account_transactions sv token accounts (count0 + length (transactions resp))
           (((tr @ [?get]) @ n1) @ n2) =
           (Returns (count0 + length (transactions resp)
                     + (\<Sum>a\<leftarrow>accounts. length (fetched (account_id a)))),
            (((tr @ [?get]) @ n1) @ n2) @ n3)"
      "length (filter is_insert n3) = (\<Sum>a\<leftarrow>accounts. length (fetched (account_id a)))"
    by blast
  have run: "fetch_account_transactions sv token (account # accounts) count0 tr =
      (Returns (count0 + length (transactions resp)
                     + (\<Sum>a\<leftarrow>accounts. length (fetched (account_id a)))),
            (((tr @ [?get]) @ n1) @ n2) @ n3)"
    using resp(1) n1(1) n2(1) n3(1)
    by (simp add: and_then_def perform_def)
  show ?case
    using run n1(2) n2(2) n3(2) resp(2)
    by (intro exI [of _ "?get # n1 @ n2 @ n3"]) simp
qed

lemma or_undefined_not_zero: "or_undefined x \<noteq> Some (Num 0)"
  by (auto simp: or_undefined_def split: option.splits jsnum.splits)

text \<open>
  Claim C9. When the user record that getUser returns has no bank token (no record, no
  token, or an empty one), each of the three operations returns the failure object with
  the message "No Plaid token found". None throws, and the only calls made are those of
  getUser, which read the users table: no call to the bank API and no write.
\<close>

theorem no_plaid_token_failure:
  assumes "getUser sv userId tr = (Returns res, tr')"
    and "plaid_token_of (data res) = None"
  shows "fetchTransactions sv userId tr =
           (Returns (Failure (Message (js ''No Plaid token found''))), tr')
       \<and> getAccountBalances sv userId tr =
           (Returns (Failure (Message (js ''No Plaid token found''))), tr')
       \<and> getInstitutionInfo sv userId tr =
           (Returns (Failure (Message (js ''No Plaid token found''))), tr')
       \<and> (\<exists>new. tr' = tr @ new \<and> list_all is_user_read new)"
  using assms getUser_events [OF assms(1)]
  by (simp add: fetchTransactions_def getAccountBalances_def getInstitutionInfo_def
        and_then_def try_catch_def return_def)

theorem no_plaid_token_failure_witness:
  "getUser demo_services (js ''u2'') [] =
     (Returns \<lparr>data = Some \<lparr>plaid_token = None\<rparr>, query_error = None\<rparr>,
      [ServerUsersSelect (js ''u2'')])
   \<and> fetchTransactions demo_services (js ''u2'') [] =
       (Returns (Failure (Message (js ''No Plaid token found''))), [ServerUsersSelect (js ''u2'')])
   \<and> getAccountBalances demo_services (js ''u2'') [] =
       (Returns (Failure (Message (js ''No Plaid token found''))), [ServerUsersSelect (js ''u2'')])
   \<and> getInstitutionInfo demo_services (js ''u2'') [] =
       (Returns (Failure (Message (js ''No Plaid token found''))), [ServerUsersSelect (js ''u2'')])"
proof -
  have u: "getUser demo_services (js ''u2'') [] =
     (Returns \<lparr>data = Some \<lparr>plaid_token = None\<rparr>, query_error = None\<rparr>,
      [ServerUsersSelect (js ''u2'')])"
    by (simp add: getUser_def io_defs demo_services_def js_def)
  have t: "plaid_token_of (data \<lparr>data = Some \<lparr>plaid_token = None\<rparr>, query_error = None\<rparr>) = None"
    by (simp add: plaid_token_of_def)
  from no_plaid_token_failure [OF u t] u show ?thesis by simp
qed

text \<open>
  Claim C4. Take a user with a bank token whose bank lists the accounts \<open>accounts\<close>
  and, for each account, the transactions \<open>fetched\<close> of it, and let the calls to the
  bank API and to the store return. Then fetchTransactions makes exactly one
  addTransaction call for each fetched transaction and returns success with the total
  number of fetched transactions as its count. Nothing is assumed of the analysis:
  it may succeed, report a failure or throw at any transaction.
\<close>

theorem fetchTransactions_persists_every_transaction:
  assumes user: "getUser sv userId tr = (Returns res, tr1)"
      "plaid_token_of (data res) = Some token"
    and bank_accounts: "accountsGet sv tr1 token = Returns accounts"
    and bank_transactions: "\<forall>t a. a \<in> set accounts \<longrightarrow>
      (\<exists>resp. transactionsGet sv t token (account_id a) = Returns resp
         \<and> transactions resp = fetched (account_id a))"
    and storage: "\<forall>t u. \<exists>q. getAccounts sv t u = Returns q"
      "\<forall>t a u. \<exists>q. addAccount sv t a u = Returns q"
      "\<forall>t d. \<exists>q. transactions_insert sv t d = Returns q"
      "\<forall>t a c. \<exists>q. updateAccount sv t a c = Returns q"
  shows "\<exists>new. fetchTransactions sv userId tr =
             (Returns (Success (\<Sum>a\<leftarrow>accounts. length (fetched (account_id a)))), tr @ new)
           \<and> length (filter is_insert new) = (\<Sum>a\<leftarrow>accounts. length (fetched (account_id a)))"
proof -
  let ?M = "\<Sum>a\<leftarrow>accounts. length (fetched (account_id a))"
  from getUser_events [OF user(1)] obtain n0 where
    n0: "tr1 = tr @ n0" "list_all is_user_read n0" by blast
  have c0: "filter is_insert n0 = []"
    using n0(2) by (induction n0) (auto elim: is_user_read.elims)
  let ?t2 = "tr1 @ [AccountsGet token]"
  from store_accounts_ok [OF storage(1,2), of userId accounts ?t2] obtain n1 where
    n1: "store_accounts sv userId accounts ?t2 = (Returns (), ?t2 @ n1)"
      "filter is_insert n1 = []" by blast
  from fetch_account_transactions_ok [OF bank_transactions storage(3,4), of 0 "?t2 @ n1"]
  obtain n2 where
    n2: "fetch_account_transactions sv token accounts 0 (?t2 @ n1) =
           (Returns ?M, (?t2 @ n1) @ n2)"
      "length (filter is_insert n2) = ?M" by auto
  have "fetchTransactions sv userId tr = (Returns (Success ?M), (?t2 @ n1) @ n2)"
    using user bank_accounts n1(1) n2(1)
    by (simp add: fetchTransactions_def io_defs)
  then show ?thesis
    using n0(1) c0 n1(2) n2(2)
    by (intro exI [of _ "n0 @ AccountsGet token # n1 @ n2"]) simp
qed

theorem fetchTransactions_persists_every_transaction_witness:
  "getUser demo_services (js ''u1'') [] =
     (Returns \<lparr>data = Some \<lparr>plaid_token = Some (js ''tok'')\<rparr>, query_error = None\<rparr>,
      [ServerUsersSelect (js ''u1'')])
   \<and> analysis_call demo_services (hd (demo_transactions (js ''a1''))) [] = Throws OtherThrown
   \<and> (\<exists>new. fetchTransactions demo_services (js ''u1'') [] = (Returns (Success 3), new)
          \<and> length (filter is_insert new) = 3)"
proof -
  let ?accounts = "[\<lparr>account_id = js ''a1''\<rparr>, \<lparr>account_id = js ''a2''\<rparr>]"
  have u: "getUser demo_services (js ''u1'') [] =
     (Returns \<lparr>data = Some \<lparr>plaid_token = Some (js ''tok'')\<rparr>, query_error = None\<rparr>,
      [ServerUsersSelect (js ''u1'')])"
    by (simp add: getUser_def io_defs demo_services_def)
  have t: "plaid_token_of
      (data \<lparr>data = Some \<lparr>plaid_token = Some (js ''tok'')\<rparr>, query_error = None\<rparr>) =
      Some (js ''tok'')"
    by (simp add: plaid_token_of_def js_def)
  have a: "accountsGet demo_services [ServerUsersSelect (js ''u1'')] (js ''tok'') = Returns ?accounts"
    by (simp add: demo_services_def)
  have b: "\<forall>t a. a \<in> set ?accounts \<longrightarrow>
      (\<exists>resp. transactionsGet demo_services t (js ''tok'') (account_id a) = Returns resp
         \<and> transactions resp = demo_transactions (account_id a))"
    by (simp add: demo_services_def)
  have s1: "\<forall>t u. \<exists>q. getAccounts demo_services t u = Returns q"
    by (simp add: demo_services_def)
  have s2: "\<forall>t a u. \<exists>q. addAccount demo_services t a u = Returns q"
    by (simp add: demo_services_def)
  have s3: "\<forall>t d. \<exists>q. transactions_insert demo_services t d = Returns q"
    by (simp add: demo_services_def)
  have s4: "\<forall>t a c. \<exists>q. updateAccount demo_services t a c = Returns q"
    by (simp add: demo_services_def)
  have m: "(\<Sum>a\<leftarrow>?accounts. length (demo_transactions (account_id a))) = 3"
    by (simp add: demo_transactions_def js_def)
  have th: "analysis_call demo_services (hd (demo_transactions (js ''a1''))) [] = Throws OtherThrown"
    by (simp add: analysis_call_def demo_services_def demo_transactions_def
          merchant_name_or_default_def or_default_def js_def)
  from fetchTransactions_persists_every_transaction [OF u t a b s1 s2 s3 s4] m
  have "\<exists>new. fetchTransactions demo_services (js ''u1'') [] = (Returns (Success 3), new)
          \<and> length (filter is_insert new) = 3"
    by auto
  with u th show ?thesis by blast
qed

text \<open>
  When the store returns, the inner loop makes the analysis call and the insert of each
  transaction in turn, so the inserted ids are the ids of the transactions.
\<close>

lemma inserted_ids_append: "inserted_ids (xs @ ys) = inserted_ids xs @ inserted_ids ys"
  by (induction xs rule: inserted_ids.induct) auto

lemma store_transaction_ids:
  assumes "\<forall>t d. \<exists>q. transactions_insert sv t d = Returns q"
  shows "\<exists>d. store_transaction sv account txn tr =
             (Returns (), tr @ [analysis_request txn, TransactionsInsert d])
           \<and> trans_id d = transaction_id txn"
proof -
  let ?req = "analysis_request txn"
  have ins: "\<And>d. \<exists>q. transactions_insert sv (tr @ [?req]) d = Returns q"
    using assms by blast
  show ?thesis
  proof (cases "analysis_call sv txn tr")
    case (Returns a)
    show ?thesis
    proof (cases a)
      case (Success v)
      let ?d = "(new_transaction_data account txn)
           \<lparr>t_is_deductible := Some (is_deductible v),
            t_deductible_reason := Some (deductible_reason v),
            t_deduction_score := deduction_score v\<rparr>"
      from ins [of ?d] obtain q where "transactions_insert sv (tr @ [?req]) ?d = Returns q" ..
      with Returns Success have
        "store_transaction sv account txn tr = (Returns (), tr @ [?req, TransactionsInsert ?d])"
        by (simp add: store_transaction_def addTransaction_def io_defs Let_def)
      moreover have "trans_id ?d = transaction_id txn"
        by (simp add: new_transaction_data_def)
      ultimately show ?thesis by blast
    next
      case (Failure e)
      let ?d = "(new_transaction_data account txn)
           \<lparr>t_is_deductible := Some False,
            t_deductible_reason := Some (js ''Analysis failed - requires manual review''),
            t_deduction_score := Some (Num 0)\<rparr>"
      from ins [of ?d] obtain q where "transactions_insert sv (tr @ [?req]) ?d = Returns q" ..
      with Returns Failure have
        "store_transaction sv account txn tr = (Returns (), tr @ [?req, TransactionsInsert ?d])"
        by (simp add: store_transaction_def addTransaction_def io_defs Let_def)
      moreover have "trans_id ?d = transaction_id txn"
        by (simp add: new_transaction_data_def)
      ultimately show ?thesis by blast
    qed
  next
    case (Throws x)
    let ?d = "(new_transaction_data account txn)
           \<lparr>t_is_deductible := Some False,
            t_deductible_reason := Some (js ''Analysis error - requires manual review''),
            t_deduction_score := Some (Num 0)\<rparr>"
    from ins [of ?d] obtain q where "transactions_insert sv (tr @ [?req]) ?d = Returns q" ..
    with Throws have
      "store_transaction sv account txn tr = (Returns (), tr @ [?req, TransactionsInsert ?d])"
      by (simp add: store_transaction_def addTransaction_def io_defs Let_def)
    moreover have "trans_id ?d = transaction_id txn"
      by (simp add: new_transaction_data_def)
    ultimately show ?thesis by blast
  qed
qed

lemma store_transactions_ids:
  assumes "\<forall>t d. \<exists>q. transactions_insert sv t d = Returns q"
  shows "\<exists>new. store_transactions sv account txns tr = (Returns (), tr @ new)
           \<and> inserted_ids new = map transaction_id txns"
proof (induction txns arbitrary: tr)
  case Nil
  show ?case by (simp add: return_def)
next
  case (Cons txn txns)
  from store_transaction_ids [OF assms, of account txn tr] obtain d where
    d: "store_transaction sv account txn tr =
          (Returns (), tr @ [analysis_request txn, TransactionsInsert d])"
      "trans_id d = transaction_id txn" by blast
  from Cons.IH [of "tr @ [analysis_request txn, TransactionsInsert d]"] obtain n2 where
    n2: "store_transactions sv account txns (tr @ [analysis_request txn, TransactionsInsert d]) =
           (Returns (), (tr @ [analysis_request txn, TransactionsInsert d]) @ n2)"
      "inserted_ids n2 = map transaction_id txns" by blast
  have "inserted_ids ([analysis_request txn, TransactionsInsert d] @ n2) =
          transaction_id txn # map transaction_id txns"
    using d(2) n2(2) by (simp add: analysis_request_def)
  with d(1) n2(1) show ?case
    by (intro exI [of _ "[analysis_request txn, TransactionsInsert d] @ n2"])
       (simp add: and_then_def)
qed

text \<open>
  Claim C5 says that the default verdict stored after a failed analysis has the reason
  "requires manual review". The stored reason is longer: "Analysis failed - requires
  manual review" when the analysis reports a failure (the third transaction of the
  concrete run) and "Analysis error - requires manual review" when it throws (the
  first one).
\<close>

theorem manual_review_reason_counterexample:
  "store_transactions demo_services \<lparr>account_id = js ''a2''\<rparr>
       [\<lparr>transaction_id = js ''t3'', date = js ''2024-01-07'', amount = 7,
         merchant_name = Some (js ''Books''), category = Some []\<rparr>] [] =
     (Returns (),
      [AnalyzeTransaction (js ''Books'') 7 (js ''Uncategorized'') (js ''2024-01-07''),
       TransactionsInsert
         \<lparr>trans_id = js ''t3'', t_account_id = js ''a2'', t_date = js ''2024-01-07'',
          t_amount = 7, t_merchant_name = Some (js ''Books''),
          t_category = Some (js ''Uncategorized''), t_is_deductible = Some False,
          t_deductible_reason = Some (js ''Analysis failed - requires manual review''),
          t_deduction_score = Some (Num 0)\<rparr>])
   \<and> store_transactions demo_services \<lparr>account_id = js ''a1''\<rparr>
       [\<lparr>transaction_id = js ''t1'', date = js ''2024-01-05'', amount = -12,
         merchant_name = Some (js ''Cafe''), category = Some [js ''Food'', js ''Coffee'']\<rparr>] [] =
     (Returns (),
      [AnalyzeTransaction (js ''Cafe'') 12 (js ''Food, Coffee'') (js ''2024-01-05''),
       TransactionsInsert
         \<lparr>trans_id = js ''t1'', t_account_id = js ''a1'', t_date = js ''2024-01-05'',
          t_amount = 12, t_merchant_name = Some (js ''Cafe''),
          t_category = Some (js ''Food, Coffee''), t_is_deductible = Some False,
          t_deductible_reason = Some (js ''Analysis error - requires manual review''),
          t_deduction_score = Some (Num 0)\<rparr>])
   \<and> js ''Analysis failed - requires manual review'' \<noteq> js ''requires manual review''
   \<and> js ''Analysis error - requires manual review'' \<noteq> js ''requires manual review''"
proof -
  let ?t3 = "\<lparr>transaction_id = js ''t3'', date = js ''2024-01-07'', amount = 7,
      merchant_name = Some (js ''Books''), category = Some []\<rparr>"
  let ?t1 = "\<lparr>transaction_id = js ''t1'', date = js ''2024-01-05'', amount = -12,
      merchant_name = Some (js ''Cafe''), category = Some [js ''Food'', js ''Coffee'']\<rparr>"
  have m3: "merchant_name_or_default ?t3 = js ''Books''"
    by (simp add: merchant_name_or_default_def or_default_def js_def)
  have c3: "category_or_default ?t3 = js ''Uncategorized''"
    by (simp add: category_or_default_def or_default_def)
  have m1: "merchant_name_or_default ?t1 = js ''Cafe''"
    by (simp add: merchant_name_or_default_def or_default_def js_def)
  have c1: "category_or_default ?t1 = js ''Food, Coffee''"
    by (simp add: category_or_default_def or_default_def js_def)
  have ne: "js ''Books'' \<noteq> js ''Cafe''"
    by (simp add: js_def)
  have a3: "analysis_call demo_services ?t3 [] = Returns (Failure (Caught OtherThrown))"
    by (simp add: analysis_call_def demo_services_def m3 ne)
  have a1: "analysis_call demo_services ?t1 [] = Throws OtherThrown"
    by (simp add: analysis_call_def demo_services_def m1)
  have i: "\<And>t d. transactions_insert demo_services t d = Returns \<lparr>data = None, query_error = None\<rparr>"
    by (simp add: demo_services_def)
  have r3: "store_transactions demo_services \<lparr>account_id = js ''a2''\<rparr> [?t3] [] =
     (Returns (),
      [AnalyzeTransaction (js ''Books'') 7 (js ''Uncategorized'') (js ''2024-01-07''),
       TransactionsInsert
         \<lparr>trans_id = js ''t3'', t_account_id = js ''a2'', t_date = js ''2024-01-07'',
          t_amount = 7, t_merchant_name = Some (js ''Books''),
          t_category = Some (js ''Uncategorized''), t_is_deductible = Some False,
          t_deductible_reason = Some (js ''Analysis failed - requires manual review''),
          t_deduction_score = Some (Num 0)\<rparr>])"
    by (simp add: store_transaction_def addTransaction_def io_defs Let_def a3 i
          analysis_request_def new_transaction_data_def m3 c3)
  have r1: "store_transactions demo_services \<lparr>account_id = js ''a1''\<rparr> [?t1] [] =
     (Returns (),
      [AnalyzeTransaction (js ''Cafe'') 12 (js ''Food, Coffee'') (js ''2024-01-05''),
       TransactionsInsert
         \<lparr>trans_id = js ''t1'', t_account_id = js ''a1'', t_date = js ''2024-01-05'',
          t_amount = 12, t_merchant_name = Some (js ''Cafe''),
          t_category = Some (js ''Food, Coffee''), t_is_deductible = Some False,
          t_deductible_reason = Some (js ''Analysis error - requires manual review''),
          t_deduction_score = Some (Num 0)\<rparr>])"
    by (simp add: store_transaction_def addTransaction_def io_defs Let_def a1 i
          analysis_request_def new_transaction_data_def m1 c1)
  have n1: "js ''Analysis failed - requires manual review'' \<noteq> js ''requires manual review''"
    by (simp add: js_def)
  have n2: "js ''Analysis error - requires manual review'' \<noteq> js ''requires manual review''"
    by (simp add: js_def)
  from r3 r1 n1 n2 show ?thesis by blast
qed

text \<open>
  Claim C5, amended. When the analysis of a transaction reports a failure or throws,
  the failure is swallowed: the step for that transaction makes the analysis call and
  then addTransaction of the transaction with \<open>is_deductible\<close> false, the score 0 and
  the reason "Analysis failed - requires manual review" (a reported failure) or
  "Analysis error - requires manual review" (a throw), and its outcome is that of the
  insert alone. The batch is not aborted: when the store returns, the run ends normally
  after that insert and one insert for each of the remaining transactions, in their
  order.
\<close>

theorem classification_failure_is_swallowed:
  assumes "analysis_call sv txn tr = Returns (Failure e) \<or> analysis_call sv txn tr = Throws x"
  shows "store_transaction sv account txn tr =
           ((case transactions_insert sv (tr @ [analysis_request txn])
                   ((new_transaction_data account txn)
                      \<lparr>t_is_deductible := Some False,
                       t_deductible_reason :=
                         Some (case analysis_call sv txn tr of
                                 Returns r \<Rightarrow> js ''Analysis failed - requires manual review''
                               | Throws y \<Rightarrow> js ''Analysis error - requires manual review''),
                       t_deduction_score := Some (Num 0)\<rparr>) of
               Returns q \<Rightarrow> Returns ()
             | Throws y \<Rightarrow> Throws y),
            tr @ [analysis_request txn,
                 TransactionsInsert
                   ((new_transaction_data account txn)
                      \<lparr>t_is_deductible := Some False,
                       t_deductible_reason :=
                         Some (case analysis_call sv txn tr of
                                 Returns r \<Rightarrow> js ''Analysis failed - requires manual review''
                               | Throws y \<Rightarrow> js ''Analysis error - requires manual review''),
                       t_deduction_score := Some (Num 0)\<rparr>)])
       \<and> ((\<forall>t d. \<exists>q. transactions_insert sv t d = Returns q) \<longrightarrow>
            (\<exists>new. store_transactions sv account (txn # txns) tr =
               (Returns (),
                tr @ [analysis_request txn,
                      TransactionsInsert
                        ((new_transaction_data account txn)
                           \<lparr>t_is_deductible := Some False,
                            t_deductible_reason :=
                              Some (case analysis_call sv txn tr of
                                      Returns r \<Rightarrow> js ''Analysis failed - requires manual review''
                                    | Throws y \<Rightarrow> js ''Analysis error - requires manual review''),
                            t_deduction_score := Some (Num 0)\<rparr>)] @ new)
             \<and> inserted_ids new = map transaction_id txns))"
proof -
  let ?d = "(new_transaction_data account txn)
              \<lparr>t_is_deductible := Some False,
               t_deductible_reason :=
                 Some (case analysis_call sv txn tr of
                         Returns r \<Rightarrow> js ''Analysis failed - requires manual review''
                       | Throws y \<Rightarrow> js ''Analysis error - requires manual review''),
               t_deduction_score := Some (Num 0)\<rparr>"
  let ?t1 = "tr @ [analysis_request txn, TransactionsInsert ?d]"
  have step: "store_transaction sv account txn tr =
      ((case transactions_insert sv (tr @ [analysis_request txn]) ?d of
          Returns q \<Rightarrow> Returns () | Throws y \<Rightarrow> Throws y), ?t1)"
    using assms
    by (cases "transactions_insert sv (tr @ [analysis_request txn]) ?d")
       (auto simp: store_transaction_def addTransaction_def io_defs Let_def)
  have rest: "\<exists>new. store_transactions sv account (txn # txns) tr =
                  (Returns (), tr @ [analysis_request txn, TransactionsInsert ?d] @ new)
                \<and> inserted_ids new = map transaction_id txns"
    if ins: "\<forall>t d. \<exists>q. transactions_insert sv t d = Returns q"
  proof -
    from ins obtain q where "transactions_insert sv (tr @ [analysis_request txn]) ?d = Returns q"
      by blast
    with step have s: "store_transaction sv account txn tr = (Returns (), ?t1)" by simp
    from store_transactions_ids [OF ins, of account txns ?t1] obtain new where
      "store_transactions sv account txns ?t1 = (Returns (), ?t1 @ new)"
      "inserted_ids new = map transaction_id txns" by blast
    with s show ?thesis
      by (intro exI [of _ new]) (simp add: and_then_def)
  qed
  show ?thesis
  proof (intro conjI impI)
    show "store_transaction sv account txn tr =
      ((case transactions_insert sv (tr @ [analysis_request txn]) ?d of
          Returns q \<Rightarrow> Returns () | Throws y \<Rightarrow> Throws y), ?t1)"
      by (rule step)
  next
    assume "\<forall>t d. \<exists>q. transactions_insert sv t d = Returns q"
    then show "\<exists>new. store_transactions sv account (txn # txns) tr =
                  (Returns (), tr @ [analysis_request txn, TransactionsInsert ?d] @ new)
                \<and> inserted_ids new = map transaction_id txns"
      by (rule rest)
  qed
qed

text \<open>
  A batch of two: the analysis throws at the first transaction and reports a failure at
  the second; both are stored with the default verdict.
\<close>

theorem classification_failure_is_swallowed_witness:
  "analysis_call demo_services (hd (demo_transactions (js ''a1''))) [] = Throws OtherThrown
   \<and> (\<forall>t d. \<exists>q. transactions_insert demo_services t d = Returns q)
   \<and> store_transactions demo_services \<lparr>account_id = js ''a1''\<rparr> (demo_transactions (js ''a1'')) [] =
     (Returns (),
      [AnalyzeTransaction (js ''Cafe'') 12 (js ''Food, Coffee'') (js ''2024-01-05''),
       TransactionsInsert
         \<lparr>trans_id = js ''t1'', t_account_id = js ''a1'', t_date = js ''2024-01-05'',
          t_amount = 12, t_merchant_name = Some (js ''Cafe''),
          t_category = Some (js ''Food, Coffee''), t_is_deductible = Some False,
          t_deductible_reason = Some (js ''Analysis error - requires manual review''),
          t_deduction_score = Some (Num 0)\<rparr>,
       AnalyzeTransaction (js ''Unknown Merchant'') 40 (js ''Uncategorized'') (js ''2024-01-06''),
       TransactionsInsert
         \<lparr>trans_id = js ''t2'', t_account_id = js ''a1'', t_date = js ''2024-01-06'',
          t_amount = 40, t_merchant_name = Some (js ''Unknown Merchant''),
          t_category = Some (js ''Uncategorized''), t_is_deductible = Some False,
          t_deductible_reason = Some (js ''Analysis failed - requires manual review''),
          t_deduction_score = Some (Num 0)\<rparr>])
   \<and> inserted_ids
        (drop 2 (snd (store_transactions demo_services \<lparr>account_id = js ''a1''\<rparr>
           (demo_transactions (js ''a1'')) []))) = [js ''t2'']"
proof -
  let ?t1 = "\<lparr>transaction_id = js ''t1'', date = js ''2024-01-05'', amount = -12,
      merchant_name = Some (js ''Cafe''), category = Some [js ''Food'', js ''Coffee'']\<rparr>"
  let ?t2 = "\<lparr>transaction_id = js ''t2'', date = js ''2024-01-06'', amount = 40,
      merchant_name = None, category = None\<rparr>"
  let ?a = "\<lparr>account_id = js ''a1''\<rparr>"
  have dt: "demo_transactions (js ''a1'') = [?t1, ?t2]"
    by (simp add: demo_transactions_def)
  have m1: "merchant_name_or_default ?t1 = js ''Cafe''"
    by (simp add: merchant_name_or_default_def or_default_def js_def)
  have c1: "category_or_default ?t1 = js ''Food, Coffee''"
    by (simp add: category_or_default_def or_default_def js_def)
  have m2: "merchant_name_or_default ?t2 = js ''Unknown Merchant''"
    by (simp add: merchant_name_or_default_def or_default_def)
  have c2: "category_or_default ?t2 = js ''Uncategorized''"
    by (simp add: category_or_default_def or_default_def)
  have ne: "js ''Unknown Merchant'' \<noteq> js ''Cafe''"
    by (simp add: js_def)
  have a1: "analysis_call demo_services ?t1 [] = Throws OtherThrown"
    by (simp add: analysis_call_def demo_services_def m1)
  have a2: "\<And>t. analysis_call demo_services ?t2 t = Returns (Failure (Caught OtherThrown))"
    by (simp add: analysis_call_def demo_services_def m2 ne)
  have i: "\<forall>t d. \<exists>q. transactions_insert demo_services t d = Returns q"
    by (simp add: demo_services_def)
  have i': "\<And>t d. transactions_insert demo_services t d = Returns \<lparr>data = None, query_error = None\<rparr>"
    by (simp add: demo_services_def)
  let ?d1 = "\<lparr>trans_id = js ''t1'', t_account_id = js ''a1'', t_date = js ''2024-01-05'',
          t_amount = 12, t_merchant_name = Some (js ''Cafe''),
          t_category = Some (js ''Food, Coffee''), t_is_deductible = Some False,
          t_deductible_reason = Some (js ''Analysis error - requires manual review''),
          t_deduction_score = Some (Num 0)\<rparr>"
  let ?d2 = "\<lparr>trans_id = js ''t2'', t_account_id = js ''a1'', t_date = js ''2024-01-06'',
          t_amount = 40, t_merchant_name = Some (js ''Unknown Merchant''),
          t_category = Some (js ''Uncategorized''), t_is_deductible = Some False,
          t_deductible_reason = Some (js ''Analysis failed - requires manual review''),
          t_deduction_score = Some (Num 0)\<rparr>"
  let ?r1 = "AnalyzeTransaction (js ''Cafe'') 12 (js ''Food, Coffee'') (js ''2024-01-05'')"
  let ?r2 = "AnalyzeTransaction (js ''Unknown Merchant'') 40 (js ''Uncategorized'') (js ''2024-01-06'')"
  have s1: "store_transaction demo_services ?a ?t1 [] = (Returns (), [?r1, TransactionsInsert ?d1])"
    by (simp add: store_transaction_def addTransaction_def io_defs Let_def a1 i'
          analysis_request_def new_transaction_data_def m1 c1)
  have s2: "store_transaction demo_services ?a ?t2 [?r1, TransactionsInsert ?d1] =
      (Returns (), [?r1, TransactionsInsert ?d1, ?r2, TransactionsInsert ?d2])"
    by (simp add: store_transaction_def addTransaction_def io_defs Let_def a2 i'
          analysis_request_def new_transaction_data_def m2 c2)
  have whole: "store_transactions demo_services ?a [?t1, ?t2] [] =
      (Returns (), [?r1, TransactionsInsert ?d1, ?r2, TransactionsInsert ?d2])"
    by (simp add: and_then_def return_def s1 s2)
  from classification_failure_is_swallowed
    [of demo_services ?t1 "[]" "Caught OtherThrown" OtherThrown ?a "[?t2]"] a1 i
  obtain new where
    new: "store_transactions demo_services ?a [?t1, ?t2] [] =
            (Returns (), [?r1, TransactionsInsert ?d1] @ new)"
      "inserted_ids new = [js ''t2'']"
    by (auto simp: analysis_request_def new_transaction_data_def m1 c1)
  have ids: "inserted_ids (drop 2 (snd (store_transactions demo_services ?a [?t1, ?t2] []))) =
      [js ''t2'']"
    using new by simp
  from a1 i whole ids show ?thesis
    by (simp only: dt list.sel) blast
qed

text \<open>
  Claim C10. In the callback of analyzeAllTransactions, when the analysis succeeds with
  a score of 0 or \<open>null\<close>, the update that is sent names \<open>is_deductible\<close> and
  \<open>deductible_reason\<close> and does not name \<open>deduction_score\<close>; applied to a stored row
  it writes the first two and leaves the stored score as it was. Whatever the verdict
  \<open>v'\<close>, the update never carries a score of 0.
\<close>

theorem zero_score_is_not_written:
  assumes "analyzeTransactionDeductibility uc sv (t_merchant_name transaction)
             (t_amount transaction) (t_category transaction) (t_date transaction) tr =
           (Returns (Success v), tr1)"
    and "deduction_score v = None \<or> deduction_score v = Some (Num 0)"
  shows "(\<exists>out. analyze_and_update uc sv transaction tr =
            (out, tr1 @ [TransactionsUpdate (trans_id transaction) (analysis_update v)]))
       \<and> u_deduction_score (analysis_update v) = None
       \<and> u_is_deductible (analysis_update v) = Some (is_deductible v)
       \<and> u_deductible_reason (analysis_update v) = Some (deductible_reason v)
       \<and> t_deduction_score (apply_update (analysis_update v) row) = t_deduction_score row
       \<and> t_is_deductible (apply_update (analysis_update v) row) = Some (is_deductible v)
       \<and> t_deductible_reason (apply_update (analysis_update v) row) = Some (deductible_reason v)
       \<and> u_deduction_score (analysis_update v') \<noteq> Some (Num 0)"
proof -
  have "\<exists>out. analyze_and_update uc sv transaction tr =
            (out, tr1 @ [TransactionsUpdate (trans_id transaction) (analysis_update v)])"
    using assms(1)
    by (cases "transactions_update sv tr1 (trans_id transaction) (analysis_update v)")
       (simp_all add: analyze_and_update_def updateTransaction_def io_defs)
  moreover have "u_deduction_score (analysis_update v) = None"
    using assms(2) by (auto simp: analysis_update_def or_undefined_def)
  ultimately show ?thesis
    by (simp add: apply_update_def analysis_update_def or_undefined_not_zero)
qed

theorem zero_score_is_not_written_witness:
  "analyzeTransactionDeductibility ascii_case_table demo_services
     (Some (js ''Cinema'')) 15 (Some (js ''Fun'')) (js ''2024-02-01'') [] =
     (Returns (Success \<lparr>is_deductible = False, deductible_reason = js ''Personal expense'',
                        deduction_score = Some (Num 0)\<rparr>),
      [ChatCompletionsCreate (Some (js ''Cinema'')) 15 (Some (js ''Fun'')) (js ''2024-02-01'')])
   \<and> analyze_and_update ascii_case_table demo_services
       \<lparr>trans_id = js ''t9'', t_account_id = js ''a1'', t_date = js ''2024-02-01'',
        t_amount = 15, t_merchant_name = Some (js ''Cinema''), t_category = Some (js ''Fun''),
        t_is_deductible = Some True, t_deductible_reason = Some (js ''Old''),
        t_deduction_score = Some (Num 0.9)\<rparr> [] =
     (Returns (Success \<lparr>is_deductible = False, deductible_reason = js ''Personal expense'',
                        deduction_score = Some (Num 0)\<rparr>),
      [ChatCompletionsCreate (Some (js ''Cinema'')) 15 (Some (js ''Fun'')) (js ''2024-02-01''),
       TransactionsUpdate (js ''t9'')
         \<lparr>u_amount = None, u_merchant_name = None, u_category = None,
          u_is_deductible = Some False, u_deductible_reason = Some (js ''Personal expense''),
          u_deduction_score = None\<rparr>])"
proof -
  let ?row = "\<lparr>trans_id = js ''t9'', t_account_id = js ''a1'', t_date = js ''2024-02-01'',
        t_amount = 15, t_merchant_name = Some (js ''Cinema''), t_category = Some (js ''Fun''),
        t_is_deductible = Some True, t_deductible_reason = Some (js ''Old''),
        t_deduction_score = Some (Num 0.9)\<rparr>"
  let ?v = "\<lparr>is_deductible = False, deductible_reason = js ''Personal expense'',
             deduction_score = Some (Num 0)\<rparr>"
  have p: "parse_response ascii_case_table (js ''No, Personal expense, 0%'') = Success ?v"
    by code_simp
  have a: "analyzeTransactionDeductibility ascii_case_table demo_services
     (t_merchant_name ?row) (t_amount ?row) (t_category ?row) (t_date ?row) [] =
     (Returns (Success ?v),
      [ChatCompletionsCreate (Some (js ''Cinema'')) 15 (Some (js ''Fun'')) (js ''2024-02-01'')])"
    by (simp add: analyzeTransactionDeductibility_def io_defs demo_services_def p)
  have z: "deduction_score ?v = None \<or> deduction_score ?v = Some (Num 0)"
    by simp
  from zero_score_is_not_written [OF a z, of ?row ?v] a
  show ?thesis
    by (auto simp: analyze_and_update_def updateTransaction_def io_defs demo_services_def
          analysis_update_def or_undefined_def)
qed

end
